theory Spec2Isabelle
  imports Complex_Main
begin

section \<open>Conventions of the embedding\<close>

text \<open>
  The Python sources compute on \<^verbatim>\<open>float\<close>; the embedding reads every float as a
  \<^typ>\<open>real\<close>, so rounding error, infinities and NaN are outside the model.
  A \<^verbatim>\<open>datetime\<close> is a real number of seconds on the UTC time line, a
  \<^verbatim>\<open>datetime.time\<close> is the number of microseconds since local midnight, and every
  read of a clock is an explicit argument of the function that reads it.
  A Python exception is a value \<open>Inl e\<close> of a sum type.
\<close>

datatype py_error = ZeroDivisionError | ValueError | TypeError | IndexError

definition py_truediv :: "real \<Rightarrow> real \<Rightarrow> py_error + real" where
  "py_truediv a b = (if b = 0 then Inl ZeroDivisionError else Inr (a / b))"

text \<open>\<^verbatim>\<open>np.max\<close> of a sequence; numpy raises ValueError on an empty one.\<close>

fun np_max :: "real list \<Rightarrow> py_error + real" where
  "np_max [] = Inl ValueError"
| "np_max (x # xs) = Inr (fold max xs x)"

text \<open>The slice \<^verbatim>\<open>xs[-n:]\<close> for an integer \<open>n\<close>: the last \<open>n\<close> elements when
  \<open>n > 0\<close>, the whole list when \<open>n = 0\<close> (the slice \<^verbatim>\<open>xs[0:]\<close>), and the list without
  its first \<open>-n\<close> elements when \<open>n < 0\<close>.\<close>

definition slice_from_neg :: "'a list \<Rightarrow> int \<Rightarrow> 'a list" where
  "slice_from_neg xs n =
     (if n > 0 then drop (length xs - nat n) xs
      else if n = 0 then xs
      else drop (nat (- n)) xs)"


text \<open>\<^verbatim>\<open>round(x, 2)\<close>: to the nearest multiple of 0.01, a tie going to the even one.\<close>

definition round_half_even :: "real \<Rightarrow> int" where
  "round_half_even x =
     (let f = \<lfloor>x\<rfloor>; d = x - of_int f
      in if d < 1 / 2 then f
         else if d > 1 / 2 then f + 1
         else if even f then f else f + 1)"

definition py_round2 :: "real \<Rightarrow> real" where
  "py_round2 x = of_int (round_half_even (x * 100)) / 100"


section \<open>Dip classification (app/dip\_engine.py)\<close>

datatype DipClass = NONE | MICRO | MINOR | MODERATE | SIGNIFICANT | MAJOR | EXTREME

record DipAnalysis =
  da_symbol :: string
  da_current_price :: real
  da_high_52w :: real
  da_high_52w_date :: "string option"
  da_dip_pct :: real
  da_dip_class :: DipClass
  da_days_from_high :: "nat option"

definition calculate_52w_high :: "real list \<Rightarrow> int \<Rightarrow> py_error + real" where
  "calculate_52w_high highs lookback_days =
     (if highs = [] then Inr 0
      else
        let period_highs =
              (if int (length highs) > lookback_days
               then slice_from_neg highs lookback_days else highs)
        in np_max period_highs)"

definition classify_dip :: "real \<Rightarrow> real \<Rightarrow> py_error + (real \<times> DipClass)" where
  "classify_dip current_price high_52w =
     (if high_52w = 0 then Inr (0, NONE)
      else
        case py_truediv (high_52w - current_price) high_52w of
          Inl e \<Rightarrow> Inl e
        | Inr q \<Rightarrow>
            (let dip_pct = q * 100
             in if dip_pct < 0 then Inr (0, NONE)
                else if dip_pct < 3 then Inr (dip_pct, NONE)
                else if dip_pct < 5 then Inr (dip_pct, MICRO)
                else if dip_pct < 8 then Inr (dip_pct, MINOR)
                else if dip_pct < 12 then Inr (dip_pct, MODERATE)
                else if dip_pct < 15 then Inr (dip_pct, SIGNIFICANT)
                else if dip_pct < 25 then Inr (dip_pct, MAJOR)
                else Inr (dip_pct, EXTREME)))"

text \<open>The index list is the comprehension of the source; the \<^verbatim>\<open>try\<close> around it
  guards nothing that can fail once the two lists have the same length.\<close>

definition find_high_date :: "real list \<Rightarrow> string list \<Rightarrow> real \<Rightarrow> (string \<times> nat) option" where
  "find_high_date highs dates high_52w =
     (if highs = [] \<or> dates = [] \<or> length highs \<noteq> length dates then None
      else
        let high_indices = filter (\<lambda>i. \<bar>highs ! i - high_52w\<bar> < 0.01) [0..<length highs]
        in if high_indices = [] then None
           else
             let high_idx = last high_indices
             in Some (dates ! high_idx, length highs - high_idx - 1))"

definition analyze_dip ::
  "string \<Rightarrow> real list \<Rightarrow> real list \<Rightarrow> string list option \<Rightarrow> int \<Rightarrow> py_error + DipAnalysis" where
  "analyze_dip symbol closes highs dates lookback_days =
     (if closes = [] \<or> highs = [] then
        Inr \<lparr>da_symbol = symbol, da_current_price = 0, da_high_52w = 0,
             da_high_52w_date = None, da_dip_pct = 0, da_dip_class = NONE,
             da_days_from_high = None\<rparr>
      else
        let current_price = last closes
        in case calculate_52w_high highs lookback_days of
             Inl e \<Rightarrow> Inl e
           | Inr high_52w \<Rightarrow>
               (case classify_dip current_price high_52w of
                  Inl e \<Rightarrow> Inl e
                | Inr (dip_pct, dip_class) \<Rightarrow>
                    (let result =
                           (case dates of
                              None \<Rightarrow> None
                            | Some ds \<Rightarrow>
                                if ds = [] then None else find_high_date highs ds high_52w)
                     in Inr \<lparr>da_symbol = symbol, da_current_price = current_price,
                             da_high_52w = high_52w,
                             da_high_52w_date = map_option fst result,
                             da_dip_pct = py_round2 dip_pct, da_dip_class = dip_class,
                             da_days_from_high = map_option snd result\<rparr>)))"

text \<open>The bands as the specification words them: right-open intervals of the dip
  percentage.\<close>

definition spec_dip_band :: "real \<Rightarrow> DipClass" where
  "spec_dip_band d =
     (if d < 3 then NONE
      else if d < 5 then MICRO
      else if d < 8 then MINOR
      else if d < 12 then MODERATE
      else if d < 15 then SIGNIFICANT
      else if d < 25 then MAJOR
      else EXTREME)"

definition spec_dip_pct :: "real \<Rightarrow> real \<Rightarrow> real" where
  "spec_dip_pct current_price high_52w =
     (if high_52w = 0 then 0 else max 0 ((high_52w - current_price) / high_52w * 100))"


section \<open>Alert rules and their state (app/alerts/models.py)\<close>

datatype AlertCondition = DIP_GT | RSI_LT | MACD_BULLISH | VOLUME_SPIKE | PRE_SCORE_GT

datatype AlertStateEnum = IDLE | ARMED | TRIGGERED | COOLDOWN

datatype Priority = HIGH | MEDIUM | LOW

datatype SuppressionReason =
    BUDGET | QUIET_HOURS | REASON_COOLDOWN | AWAITING_CONFIRMATION
  | LOW_PRIORITY | BURST_ROLLUP | CORPORATE_ACTION | HALT

record AlertRule =
  ar_id :: string
  ar_user_id :: string
  ar_symbol :: string
  condition :: AlertCondition
  threshold :: real
  debounce_seconds :: int
  hysteresis_reset :: real
  confirm_window_seconds :: int
  enabled :: bool
  cooldown_seconds :: int
  priority :: Priority

record AlertState =
  as_rule_id :: string
  as_symbol :: string
  as_state :: AlertStateEnum
  last_transition_at :: real
  last_triggered_at :: "real option"
  cooldown_until :: "real option"
  last_value :: "real option"
  first_signal_at :: "real option"

text \<open>Of an event and of a suppression log the model keeps the fields the engine
  decides; the random id and the formatted message, chips and payload are left out.\<close>

record AlertEvent =
  ae_rule_id :: string
  ae_symbol :: string
  ae_fired_at :: real
  ae_priority :: Priority
  ae_value :: real
  ae_threshold :: real
  ae_push_sent :: bool

record SuppressionLog =
  sl_rule_id :: string
  sl_symbol :: string
  sl_timestamp :: real
  sl_reason :: SuppressionReason

text \<open>The market data of one evaluation: a dictionary from names to numbers.
  \<open>dict_get\<close> is \<^verbatim>\<open>data.get(key, default)\<close>.\<close>

type_synonym market_data = "string \<rightharpoonup> real"

definition dict_get :: "(string \<rightharpoonup> real) \<Rightarrow> string \<Rightarrow> real \<Rightarrow> real" where
  "dict_get d k dflt = (case d k of None \<Rightarrow> dflt | Some v \<Rightarrow> v)"


section \<open>Noise control (app/alerts/noise\_control.py)\<close>

text \<open>A time of day is its number of microseconds since midnight.\<close>

definition time_of_day :: "nat \<Rightarrow> nat \<Rightarrow> nat" where
  "time_of_day h m = (h * 60 + m) * 60 * 1000000"

text \<open>The counters live in a key-value store, absent (\<open>None\<close>) when the connection
  failed at construction. The expiry set on a counter is not modelled.\<close>

record NoiseControl =
  nc_redis :: "(string \<rightharpoonup> int) option"
  DAILY_USER_CAP :: int
  DAILY_SYMBOL_CAP :: int
  QUIET_START :: nat
  QUIET_END :: nat

definition NoiseControl_init :: "(string \<rightharpoonup> int) option \<Rightarrow> NoiseControl" where
  "NoiseControl_init r =
     \<lparr>nc_redis = r, DAILY_USER_CAP = 5, DAILY_SYMBOL_CAP = 2,
      QUIET_START = time_of_day 22 0, QUIET_END = time_of_day 8 0\<rparr>"

definition is_quiet_hours :: "NoiseControl \<Rightarrow> nat \<Rightarrow> bool" where
  "is_quiet_hours nc now_time =
     (if QUIET_START nc < QUIET_END nc
      then QUIET_START nc \<le> now_time \<and> now_time \<le> QUIET_END nc
      else now_time \<ge> QUIET_START nc \<or> now_time \<le> QUIET_END nc)"

definition user_key :: "string \<Rightarrow> string \<Rightarrow> string" where
  "user_key user_id today = ''budget:user:'' @ user_id @ '':'' @ today"

definition symbol_key :: "string \<Rightarrow> string \<Rightarrow> string \<Rightarrow> string" where
  "symbol_key user_id symbol today =
     ''budget:symbol:'' @ user_id @ '':'' @ symbol @ '':'' @ today"

definition redis_count :: "(string \<rightharpoonup> int) \<Rightarrow> string \<Rightarrow> int" where
  "redis_count r k = (case r k of None \<Rightarrow> 0 | Some n \<Rightarrow> n)"

definition check_budget ::
  "NoiseControl \<Rightarrow> string \<Rightarrow> string \<Rightarrow> string \<Rightarrow> SuppressionReason option" where
  "check_budget nc today user_id symbol =
     (case nc_redis nc of
        None \<Rightarrow> None
      | Some r \<Rightarrow>
          if redis_count r (user_key user_id today) \<ge> DAILY_USER_CAP nc then Some BUDGET
          else if redis_count r (symbol_key user_id symbol today) \<ge> DAILY_SYMBOL_CAP nc
          then Some BUDGET
          else None)"

definition redis_incr :: "(string \<rightharpoonup> int) \<Rightarrow> string \<Rightarrow> (string \<rightharpoonup> int)" where
  "redis_incr r k = r(k \<mapsto> redis_count r k + 1)"

definition consume_budget :: "NoiseControl \<Rightarrow> string \<Rightarrow> string \<Rightarrow> string \<Rightarrow> NoiseControl" where
  "consume_budget nc today user_id symbol =
     (case nc_redis nc of
        None \<Rightarrow> nc
      | Some r \<Rightarrow>
          nc\<lparr>nc_redis :=
               Some (redis_incr (redis_incr r (user_key user_id today))
                                (symbol_key user_id symbol today))\<rparr>)"


section \<open>The alert engine (app/alerts/engine.py, app/alerts/storage.py)\<close>

text \<open>
  The engine owns the state cache of the storage (one map, whether it is the key-value
  store or the local dictionary), the suppression log, the noise control, and, as a
  record of what the notifier was asked to send, the list of dispatched events.
  One evaluation reads the clocks once: \<open>now\<close> is the UTC instant, \<open>local_time\<close> the
  local time of day, \<open>today\<close> the UTC date as the text \<^verbatim>\<open>%Y%m%d\<close>; \<open>dispatch_ok\<close> is what
  the notifier answers when it is called. Every call of \<open>transition\<close> writes a line to
  the logger, with the rule id and the new state; \<open>transition_log\<close> is the list of these
  lines, the reason text left out.
\<close>

record Tick =
  now :: real
  local_time :: nat
  today :: string
  dispatch_ok :: bool

record AlertEngine =
  state_cache :: "string \<rightharpoonup> AlertState"
  suppression_logs :: "SuppressionLog list"
  dispatched :: "AlertEvent list"
  noise_control :: NoiseControl
  transition_log :: "(string \<times> AlertStateEnum) list"

definition AlertEngine_init :: "(string \<rightharpoonup> int) option \<Rightarrow> AlertEngine" where
  "AlertEngine_init r =
     \<lparr>state_cache = Map.empty, suppression_logs = [], dispatched = [],
      noise_control = NoiseControl_init r, transition_log = []\<rparr>"

definition state_key :: "string \<Rightarrow> string" where
  "state_key rule_id = ''alert:state:'' @ rule_id"

definition get_state :: "AlertEngine \<Rightarrow> string \<Rightarrow> string \<Rightarrow> real \<Rightarrow> AlertState" where
  "get_state eng rule_id symbol t =
     (case state_cache eng (state_key rule_id) of
        Some s \<Rightarrow> s
      | None \<Rightarrow>
          \<lparr>as_rule_id = rule_id, as_symbol = symbol, as_state = IDLE,
           last_transition_at = t, last_triggered_at = None, cooldown_until = None,
           last_value = None, first_signal_at = None\<rparr>)"

definition save_state :: "AlertEngine \<Rightarrow> AlertState \<Rightarrow> AlertEngine" where
  "save_state eng state =
     eng\<lparr>state_cache := (state_cache eng)(state_key (as_rule_id state) \<mapsto> state)\<rparr>"

definition log_suppression :: "AlertEngine \<Rightarrow> AlertRule \<Rightarrow> SuppressionReason \<Rightarrow> real \<Rightarrow> AlertEngine" where
  "log_suppression eng rule reason t =
     eng\<lparr>suppression_logs := suppression_logs eng @
            [\<lparr>sl_rule_id = ar_id rule, sl_symbol = ar_symbol rule,
              sl_timestamp = t, sl_reason = reason\<rparr>]\<rparr>"

definition check_condition :: "AlertRule \<Rightarrow> market_data \<Rightarrow> bool \<times> real" where
  "check_condition rule data =
     (case condition rule of
        DIP_GT \<Rightarrow>
          (let val = dict_get data ''dip_percent'' 0 in (val \<ge> threshold rule, val))
      | RSI_LT \<Rightarrow>
          (let val = dict_get data ''rsi'' 100 in (val < threshold rule, val))
      | MACD_BULLISH \<Rightarrow>
          (let val = dict_get data ''macd_hist'' 0
           in (val > 0 \<and> val > threshold rule, val))
      | VOLUME_SPIKE \<Rightarrow>
          (let vol = dict_get data ''volume'' 0;
               avg_vol = dict_get data ''avg_volume'' 1;
               val = (if avg_vol > 0 then vol / avg_vol else 0)
           in (val \<ge> threshold rule, val))
      | PRE_SCORE_GT \<Rightarrow> (False, 0))"

definition should_reset :: "AlertRule \<Rightarrow> real \<Rightarrow> bool" where
  "should_reset rule current_value =
     (if hysteresis_reset rule = 0 then
        (if condition rule = DIP_GT then current_value < threshold rule
         else if condition rule = RSI_LT then current_value \<ge> threshold rule
         else True)
      else if condition rule = DIP_GT
        then current_value < threshold rule - hysteresis_reset rule
      else if condition rule = RSI_LT
        then current_value > threshold rule + hysteresis_reset rule
      else True)"

definition transition ::
  "AlertEngine \<Rightarrow> AlertState \<Rightarrow> AlertStateEnum \<Rightarrow> real \<Rightarrow> AlertState \<times> AlertEngine" where
  "transition eng state new_state t =
     (state\<lparr>as_state := new_state, last_transition_at := t\<rparr>,
      eng\<lparr>transition_log := transition_log eng @ [(as_rule_id state, new_state)]\<rparr>)"

definition trigger_alert ::
  "Tick \<Rightarrow> AlertRule \<Rightarrow> AlertState \<Rightarrow> real \<Rightarrow> AlertEngine \<Rightarrow> AlertState \<times> AlertEngine" where
  "trigger_alert tk rule state val eng =
     (let suppression_reason =
            (if is_quiet_hours (noise_control eng) (local_time tk) \<and> priority rule \<noteq> HIGH
             then Some QUIET_HOURS else None);
          suppression_reason =
            (if suppression_reason = None
             then check_budget (noise_control eng) (today tk) (ar_user_id rule) (ar_symbol rule)
             else suppression_reason)
      in case suppression_reason of
           Some reason \<Rightarrow>
             (let eng1 = log_suppression eng rule reason (now tk);
                  (state1, eng2) = transition eng1 state TRIGGERED (now tk)
              in (state1\<lparr>last_triggered_at := Some (now tk)\<rparr>, eng2))
         | None \<Rightarrow>
             (let event = \<lparr>ae_rule_id = ar_id rule, ae_symbol = ar_symbol rule,
                           ae_fired_at = now tk, ae_priority = priority rule,
                           ae_value = val, ae_threshold = threshold rule,
                           ae_push_sent = dispatch_ok tk\<rparr>;
                  eng1 = eng\<lparr>dispatched := dispatched eng @ [event]\<rparr>;
                  eng2 = eng1\<lparr>noise_control :=
                           consume_budget (noise_control eng1) (today tk)
                             (ar_user_id rule) (ar_symbol rule)\<rparr>;
                  (state1, eng3) = transition eng2 state TRIGGERED (now tk)
              in (state1\<lparr>last_triggered_at := Some (now tk)\<rparr>, eng3)))"

text \<open>The body of \<open>evaluate_rule\<close> on the state it has read. \<open>None\<close> is the early
  return of step 1 (still in cooldown): nothing is changed and nothing is saved.\<close>

definition evaluate_state ::
  "Tick \<Rightarrow> AlertRule \<Rightarrow> market_data \<Rightarrow> AlertState \<Rightarrow> AlertEngine
     \<Rightarrow> (AlertState \<times> AlertEngine) option" where
  "evaluate_state tk rule data state0 eng0 =
     (case (if as_state state0 = COOLDOWN then
              (case cooldown_until state0 of
                 None \<Rightarrow> None
               | Some cu \<Rightarrow>
                   if now tk \<ge> cu then Some (transition eng0 state0 IDLE (now tk))
                   else None)
            else Some (state0, eng0)) of
        None \<Rightarrow> None
      | Some (state, eng) \<Rightarrow>
          (let (is_met, current_value) = check_condition rule data;
               (state2, eng2) =
                 (case as_state state of
                    IDLE \<Rightarrow>
                      if is_met then
                        (if debounce_seconds rule > 0
                         then (let (state1, eng1) = transition eng state ARMED (now tk)
                               in (state1\<lparr>first_signal_at := Some (now tk)\<rparr>, eng1))
                         else trigger_alert tk rule state current_value eng)
                      else (state, eng)
                  | ARMED \<Rightarrow>
                      if is_met then
                        (case first_signal_at state of
                           None \<Rightarrow> (state, eng)
                         | Some fs \<Rightarrow>
                             if now tk - fs \<ge> of_int (debounce_seconds rule)
                             then trigger_alert tk rule state current_value eng
                             else (state, eng))
                      else transition eng state IDLE (now tk)
                  | TRIGGERED \<Rightarrow>
                      if should_reset rule current_value then
                        transition eng
                          (state\<lparr>cooldown_until :=
                                   Some (now tk + of_int (cooldown_seconds rule))\<rparr>)
                          COOLDOWN (now tk)
                      else (state, eng)
                  | COOLDOWN \<Rightarrow> (state, eng))
           in Some (state2\<lparr>last_value := Some current_value\<rparr>, eng2)))"

definition evaluate_rule :: "Tick \<Rightarrow> AlertRule \<Rightarrow> market_data \<Rightarrow> AlertEngine \<Rightarrow> AlertEngine" where
  "evaluate_rule tk rule data eng =
     (case evaluate_state tk rule data (get_state eng (ar_id rule) (ar_symbol rule) (now tk)) eng of
        None \<Rightarrow> eng
      | Some (state, eng1) \<Rightarrow> save_state eng1 state)"

text \<open>A run of the engine: one evaluation after the other, each with its own clock
  reading, rule and market data.\<close>

fun run_rules :: "(Tick \<times> AlertRule \<times> market_data) list \<Rightarrow> AlertEngine \<Rightarrow> AlertEngine" where
  "run_rules [] eng = eng"
| "run_rules ((tk, rule, data) # rest) eng = run_rules rest (evaluate_rule tk rule data eng)"

text \<open>The state of a rule as the cache holds it (IDLE for a rule never evaluated).
  A run on one rule with the same market data at each clock reading of a list, and the
  transitions it makes: the lines that the run adds to the transition log, one for each
  call of \<open>transition\<close>.\<close>

definition current_alert_state :: "AlertEngine \<Rightarrow> AlertRule \<Rightarrow> AlertStateEnum" where
  "current_alert_state eng rule = as_state (get_state eng (ar_id rule) (ar_symbol rule) 0)"

fun run_rule :: "AlertRule \<Rightarrow> market_data \<Rightarrow> Tick list \<Rightarrow> AlertEngine \<Rightarrow> AlertEngine" where
  "run_rule rule data [] eng = eng"
| "run_rule rule data (tk # tks) eng = run_rule rule data tks (evaluate_rule tk rule data eng)"

definition transitions_made ::
  "AlertRule \<Rightarrow> market_data \<Rightarrow> Tick list \<Rightarrow> AlertEngine \<Rightarrow> (string \<times> AlertStateEnum) list" where
  "transitions_made rule data tks eng =
     drop (length (transition_log eng)) (transition_log (run_rule rule data tks eng))"

text \<open>The cache is keyed when every state sits under the key of its own rule id, as
  \<open>save_state\<close> files it; the empty cache is, and every evaluation keeps it so.\<close>

definition cache_keyed :: "AlertEngine \<Rightarrow> bool" where
  "cache_keyed eng =
     (\<forall>k s. state_cache eng k = Some s \<longrightarrow> k = state_key (as_rule_id s))"

text \<open>The number of changes along a list of states.\<close>

fun count_changes :: "'a \<Rightarrow> 'a list \<Rightarrow> nat" where
  "count_changes s [] = 0"
| "count_changes s (t # ts) = (if t = s then 0 else 1) + count_changes t ts"

text \<open>The invariant of the specification, and its one half that the engine keeps.\<close>

definition spec_alert_invariant :: "AlertState \<Rightarrow> bool" where
  "spec_alert_invariant s =
     (((as_state s = COOLDOWN) = (cooldown_until s \<noteq> None))
      \<and> ((as_state s = ARMED) = (first_signal_at s \<noteq> None)))"

definition alert_invariant :: "AlertState \<Rightarrow> bool" where
  "alert_invariant s =
     ((as_state s = COOLDOWN \<longrightarrow> cooldown_until s \<noteq> None)
      \<and> (as_state s = ARMED \<longrightarrow> first_signal_at s \<noteq> None))"

text \<open>The reset predicate as the specification words it.\<close>

definition spec_should_reset :: "AlertRule \<Rightarrow> market_data \<Rightarrow> bool" where
  "spec_should_reset rule data =
     (let (is_met, current_value) = check_condition rule data
      in if condition rule = DIP_GT
           then current_value < threshold rule - hysteresis_reset rule
         else if condition rule = RSI_LT
           then current_value > threshold rule + hysteresis_reset rule
         else \<not> is_met)"

text \<open>The quiet-hours window as the specification words it: right-open, possibly
  across midnight.\<close>

definition spec_quiet_window :: "NoiseControl \<Rightarrow> nat \<Rightarrow> bool" where
  "spec_quiet_window nc t =
     (if QUIET_START nc < QUIET_END nc
      then QUIET_START nc \<le> t \<and> t < QUIET_END nc
      else t \<ge> QUIET_START nc \<or> t < QUIET_END nc)"


section \<open>The sector state machine (app/state\_machine.py)\<close>

datatype SectorState = NORMAL | WATCH | ALERT | SECTOR_COOLDOWN

record StateThresholds =
  watch_dip_min :: real
  watch_rsi40_breadth_min :: real
  alert_dip_min :: real
  alert_rsi40_breadth_min :: real
  alert_down_breadth_min :: real
  watch_exit_dip :: real
  watch_exit_rsi40 :: real
  alert_exit_dip :: real
  alert_exit_rsi40 :: real
  cooldown_duration_seconds :: int
  dip_worsen_threshold :: real
  breadth_worsen_threshold :: real

definition StateThresholds_default :: StateThresholds where
  "StateThresholds_default =
     \<lparr>watch_dip_min = 5, watch_rsi40_breadth_min = 0.35,
      alert_dip_min = 8, alert_rsi40_breadth_min = 0.45, alert_down_breadth_min = 0.55,
      watch_exit_dip = 4, watch_exit_rsi40 = 0.33,
      alert_exit_dip = 7, alert_exit_rsi40 = 0.43,
      cooldown_duration_seconds = 1800,
      dip_worsen_threshold = 2, breadth_worsen_threshold = 0.10\<rparr>"

text \<open>A snapshot of metrics is a dictionary; the machine reads three numbers of it.\<close>

type_synonym metrics = "string \<rightharpoonup> real"

record SectorEvent =
  event_id :: string
  ev_sector_id :: string
  ts :: real
  previous_state :: SectorState
  new_state :: SectorState
  metrics_snapshot :: metrics
  trigger_reason :: string

record SectorStateRecord =
  sector_id :: string
  current_state :: SectorState
  last_transition :: real
  sector_cooldown_until :: "real option"
  last_alert_metrics :: "metrics option"
  state_history :: "SectorEvent list"

record SectorStateMachine =
  thresholds :: StateThresholds
  sector_states :: "string \<rightharpoonup> SectorStateRecord"

definition SectorStateMachine_init :: "StateThresholds option \<Rightarrow> SectorStateMachine" where
  "SectorStateMachine_init th =
     \<lparr>thresholds = (case th of None \<Rightarrow> StateThresholds_default | Some t \<Rightarrow> t),
      sector_states = Map.empty\<rparr>"

definition meets_watch_criteria :: "StateThresholds \<Rightarrow> metrics \<Rightarrow> bool" where
  "meets_watch_criteria th m =
     (let dip_pct = dict_get m ''dip_pct'' 0;
          rsi40_breadth = dict_get m ''rsi40_breadth'' 0
      in dip_pct \<ge> watch_dip_min th \<and> rsi40_breadth \<ge> watch_rsi40_breadth_min th)"

definition meets_alert_criteria :: "StateThresholds \<Rightarrow> metrics \<Rightarrow> bool" where
  "meets_alert_criteria th m =
     (let dip_pct = dict_get m ''dip_pct'' 0;
          rsi40_breadth = dict_get m ''rsi40_breadth'' 0;
          lowerband_breadth = dict_get m ''lowerband_breadth'' 0
      in dip_pct \<ge> alert_dip_min th
         \<and> (rsi40_breadth \<ge> alert_rsi40_breadth_min th
            \<or> lowerband_breadth \<ge> alert_down_breadth_min th))"

definition should_exit_watch :: "StateThresholds \<Rightarrow> metrics \<Rightarrow> bool" where
  "should_exit_watch th m =
     (let dip_pct = dict_get m ''dip_pct'' 0;
          rsi40_breadth = dict_get m ''rsi40_breadth'' 0
      in dip_pct < watch_exit_dip th \<or> rsi40_breadth < watch_exit_rsi40 th)"

definition should_exit_alert :: "StateThresholds \<Rightarrow> metrics \<Rightarrow> bool" where
  "should_exit_alert th m =
     (let dip_pct = dict_get m ''dip_pct'' 0;
          rsi40_breadth = dict_get m ''rsi40_breadth'' 0
      in dip_pct < alert_exit_dip th \<or> rsi40_breadth < alert_exit_rsi40 th)"

text \<open>\<^verbatim>\<open>if not last_metrics\<close> holds of \<^verbatim>\<open>None\<close> and of the empty dictionary.\<close>

definition check_worsen_conditions ::
  "StateThresholds \<Rightarrow> metrics \<Rightarrow> metrics option \<Rightarrow> bool" where
  "check_worsen_conditions th current_metrics last_metrics =
     (case last_metrics of
        None \<Rightarrow> False
      | Some lm \<Rightarrow>
          if lm = Map.empty then False
          else
            let current_dip = dict_get current_metrics ''dip_pct'' 0;
                last_dip = dict_get lm ''dip_pct'' 0;
                dip_deepened = current_dip - last_dip;
                current_breadth = dict_get current_metrics ''rsi40_breadth'' 0;
                last_breadth = dict_get lm ''rsi40_breadth'' 0;
                breadth_increased = current_breadth - last_breadth
            in dip_deepened \<ge> dip_worsen_threshold th
               \<or> breadth_increased \<ge> breadth_worsen_threshold th)"

text \<open>One call reads the UTC clock (\<open>sc_now\<close>) and, for the event id, the epoch
  second as decimal text (\<open>sc_epoch\<close>).\<close>

record SectorClock =
  sc_now :: real
  sc_epoch :: string

text \<open>The state transition logic of \<open>update_state\<close>: the new state, the reason of
  the transition, and the record as the branch taken leaves it.\<close>

definition transition_logic ::
  "StateThresholds \<Rightarrow> real \<Rightarrow> metrics \<Rightarrow> SectorStateRecord
     \<Rightarrow> SectorState \<times> string \<times> SectorStateRecord" where
  "transition_logic th t m record0 =
     (case current_state record0 of
        NORMAL \<Rightarrow>
          if meets_alert_criteria th m then (ALERT, ''Alert criteria met'', record0)
          else if meets_watch_criteria th m then (WATCH, ''Watch criteria met'', record0)
          else (NORMAL, [], record0)
      | WATCH \<Rightarrow>
          if meets_alert_criteria th m
            then (ALERT, ''Escalated from WATCH to ALERT'', record0)
          else if should_exit_watch th m
            then (NORMAL, ''Watch criteria no longer met'', record0)
          else (WATCH, [], record0)
      | ALERT \<Rightarrow>
          if should_exit_alert th m then
            (SECTOR_COOLDOWN, ''Alert ended, entering cooldown'',
             record0\<lparr>sector_cooldown_until :=
                        Some (t + of_int (cooldown_duration_seconds th)),
                      last_alert_metrics := Some m\<rparr>)
          else (ALERT, [], record0)
      | SECTOR_COOLDOWN \<Rightarrow>
          if (case sector_cooldown_until record0 of None \<Rightarrow> False | Some cu \<Rightarrow> t \<ge> cu)
            then (NORMAL, ''Cooldown expired'', record0)
          else if check_worsen_conditions th m (last_alert_metrics record0)
            then (ALERT, ''Conditions worsened during cooldown'', record0)
          else (SECTOR_COOLDOWN, [], record0))"

definition update_state ::
  "SectorClock \<Rightarrow> string \<Rightarrow> metrics \<Rightarrow> SectorStateMachine
     \<Rightarrow> SectorStateMachine \<times> SectorEvent option" where
  "update_state clk sid m sm =
     (let t = sc_now clk;
          record0 =
            (case sector_states sm sid of
               None \<Rightarrow>
                 \<lparr>sector_id = sid, current_state = NORMAL, last_transition = t,
                  sector_cooldown_until = None, last_alert_metrics = None,
                  state_history = []\<rparr>
             | Some r \<Rightarrow> r);
          cur = current_state record0;
          (new, reason, record1) = transition_logic (thresholds sm) t m record0
      in if new \<noteq> cur then
           (let event =
                  \<lparr>event_id = sid @ ''_'' @ sc_epoch clk, ev_sector_id = sid, ts = t,
                   previous_state = cur, new_state = new, metrics_snapshot = m,
                   trigger_reason = reason\<rparr>;
                history = state_history record1 @ [event];
                record2 =
                  record1\<lparr>current_state := new, last_transition := t,
                          state_history :=
                            (if length history > 100 then slice_from_neg history 100
                             else history)\<rparr>
            in (sm\<lparr>sector_states := (sector_states sm)(sid \<mapsto> record2)\<rparr>, Some event))
         else (sm\<lparr>sector_states := (sector_states sm)(sid \<mapsto> record1)\<rparr>, None))"

definition get_current_state :: "SectorStateMachine \<Rightarrow> string \<Rightarrow> SectorState" where
  "get_current_state sm sid =
     (case sector_states sm sid of Some r \<Rightarrow> current_state r | None \<Rightarrow> NORMAL)"

text \<open>A run of the machine, and the states one sector goes through when the same
  snapshot is fed at each clock reading of a list.\<close>

fun run_sectors ::
  "(SectorClock \<times> string \<times> metrics) list \<Rightarrow> SectorStateMachine \<Rightarrow> SectorStateMachine" where
  "run_sectors [] sm = sm"
| "run_sectors ((clk, sid, m) # rest) sm = run_sectors rest (fst (update_state clk sid m sm))"

fun sector_trace ::
  "string \<Rightarrow> metrics \<Rightarrow> SectorClock list \<Rightarrow> SectorStateMachine \<Rightarrow> SectorState list" where
  "sector_trace sid m [] sm = []"
| "sector_trace sid m (clk # clks) sm =
     (let sm1 = fst (update_state clk sid m sm)
      in get_current_state sm1 sid # sector_trace sid m clks sm1)"

text \<open>The invariant of the specification, and the part of it that the machine keeps.\<close>

definition spec_sector_invariant :: "SectorStateRecord \<Rightarrow> bool" where
  "spec_sector_invariant r =
     (((sector_cooldown_until r \<noteq> None) = (current_state r = SECTOR_COOLDOWN))
      \<and> (current_state r = ALERT \<or> current_state r = SECTOR_COOLDOWN
           \<longrightarrow> last_alert_metrics r \<noteq> None))"

definition sector_invariant :: "SectorStateRecord \<Rightarrow> bool" where
  "sector_invariant r =
     (current_state r = SECTOR_COOLDOWN
        \<longrightarrow> sector_cooldown_until r \<noteq> None \<and> last_alert_metrics r \<noteq> None)"


section \<open>Indicators (app/indicators.py)\<close>

text \<open>\<^verbatim>\<open>np.diff\<close>: the first differences of a sequence.\<close>

definition np_diff :: "real list \<Rightarrow> real list" where
  "np_diff xs = map (\<lambda>(a, b). b - a) (zip xs (tl xs))"

text \<open>
  \<^verbatim>\<open>pd.Series(xs).ewm(span=n, adjust=False).mean()\<close>, as pandas documents it: the
  smoothing factor is \<open>2 / (n + 1)\<close>, the first value of the result is the first
  sample, and each further value is \<open>(1 - \<alpha>) * previous + \<alpha> * sample\<close>. A span below 1
  is a ValueError.
\<close>

fun ewm_from :: "real \<Rightarrow> real \<Rightarrow> real list \<Rightarrow> real list" where
  "ewm_from \<alpha> prev [] = []"
| "ewm_from \<alpha> prev (x # xs) =
     (let y = (1 - \<alpha>) * prev + \<alpha> * x in y # ewm_from \<alpha> y xs)"

definition ewm_alpha :: "real \<Rightarrow> real list \<Rightarrow> real list" where
  "ewm_alpha \<alpha> xs = (case xs of [] \<Rightarrow> [] | x # rest \<Rightarrow> x # ewm_from \<alpha> x rest)"

definition ewm_span_mean :: "int \<Rightarrow> real list \<Rightarrow> py_error + real list" where
  "ewm_span_mean n xs =
     (if n < 1 then Inl ValueError else Inr (ewm_alpha (2 / (of_int n + 1)) xs))"

text \<open>\<^verbatim>\<open>series.iloc[-1]\<close>: the last value, an IndexError on an empty series.\<close>

definition iloc_last :: "real list \<Rightarrow> py_error + real" where
  "iloc_last xs = (if xs = [] then Inl IndexError else Inr (last xs))"

definition calculate_rsi :: "real list \<Rightarrow> int \<Rightarrow> py_error + real option" where
  "calculate_rsi closes period =
     (if int (length closes) < period + 1 then Inr None
      else
        let deltas = np_diff closes;
            gains = map (\<lambda>d. if d > 0 then d else 0) deltas;
            losses = map (\<lambda>d. if d < 0 then - d else 0) deltas
        in case ewm_span_mean period gains of
             Inl e \<Rightarrow> Inl e
           | Inr g \<Rightarrow>
               (case iloc_last g of
                  Inl e \<Rightarrow> Inl e
                | Inr avg_gain \<Rightarrow>
                    (case ewm_span_mean period losses of
                       Inl e \<Rightarrow> Inl e
                     | Inr l \<Rightarrow>
                         (case iloc_last l of
                            Inl e \<Rightarrow> Inl e
                          | Inr avg_loss \<Rightarrow>
                              if avg_loss = 0 then Inr (Some 100)
                              else
                                let rs = avg_gain / avg_loss;
                                    rsi = 100 - (100 / (1 + rs))
                                in Inr (Some rsi)))))"

text \<open>Of the incremental indicators the model keeps the closes and the state of the
  incremental RSI. The update of the average gain is stored before the update of the
  average loss is computed, as in the source.\<close>

record IncrementalIndicators =
  ii_closes :: "real list"
  rsi_avg_gain :: "real option"
  rsi_avg_loss :: "real option"

definition update_incremental_rsi ::
  "IncrementalIndicators \<Rightarrow> real \<Rightarrow> int
     \<Rightarrow> (py_error + real option) \<times> IncrementalIndicators" where
  "update_incremental_rsi self new_close period =
     (if length (ii_closes self) < 2 then (Inr None, self)
      else
        let delta = new_close - last (ii_closes self);
            gain = max delta 0;
            loss = max (- delta) 0
        in if period = 0 then (Inl ZeroDivisionError, self)
           else
             let \<alpha> = 1 / of_int period
             in case rsi_avg_gain self of
                  None \<Rightarrow> (calculate_rsi (ii_closes self) period, self)
                | Some g \<Rightarrow>
                    (let self1 = self\<lparr>rsi_avg_gain := Some (\<alpha> * gain + (1 - \<alpha>) * g)\<rparr>
                     in case rsi_avg_loss self1 of
                          None \<Rightarrow> (Inl TypeError, self1)
                        | Some l \<Rightarrow>
                            (let self2 = self1\<lparr>rsi_avg_loss := Some (\<alpha> * loss + (1 - \<alpha>) * l)\<rparr>;
                                 avg_gain = \<alpha> * gain + (1 - \<alpha>) * g;
                                 avg_loss = \<alpha> * loss + (1 - \<alpha>) * l
                             in if avg_loss = 0 then (Inr (Some 100), self2)
                                else
                                  let rs = avg_gain / avg_loss;
                                      rsi = 100 - (100 / (1 + rs))
                                  in (Inr (Some rsi), self2))))"

text \<open>The RSI as the specification words it: the same averages with the smoothing
  factor \<open>1 / period\<close>.\<close>

definition spec_rsi :: "real list \<Rightarrow> int \<Rightarrow> real option" where
  "spec_rsi closes period =
     (if int (length closes) < period + 1 then None
      else
        let deltas = np_diff closes;
            gains = map (\<lambda>d. if d > 0 then d else 0) deltas;
            losses = map (\<lambda>d. if d < 0 then - d else 0) deltas;
            avg_gain = last (ewm_alpha (1 / of_int period) gains);
            avg_loss = last (ewm_alpha (1 / of_int period) losses)
        in if avg_loss = 0 then Some 100
           else Some (100 - (100 / (1 + avg_gain / avg_loss))))"


section \<open>Candidate ranking (app/candidate\_ranker.py)\<close>















section \<open>Settled states\<close>

text \<open>
  A rule is steady when its condition is one of the two that the reset predicate
  distinguishes, its hysteresis is not negative and it has no debounce window. For given
  market data a state of such a rule is settled when an evaluation with that data leaves
  it where it is: TRIGGERED while the condition is met; IDLE, or TRIGGERED short of the
  reset, while it is not.
\<close>

definition rule_settled :: "AlertRule \<Rightarrow> market_data \<Rightarrow> AlertStateEnum \<Rightarrow> bool" where
  "rule_settled r d st =
     (if fst (check_condition r d) then st = TRIGGERED
      else (st = IDLE \<or> (st = TRIGGERED \<and> \<not> should_reset r (snd (check_condition r d)))))"

definition rule_steady :: "AlertRule \<Rightarrow> market_data \<Rightarrow> bool" where
  "rule_steady r d =
     ((condition r = DIP_GT \<or> condition r = RSI_LT) \<and> hysteresis_reset r \<ge> 0
      \<and> debounce_seconds r \<le> 0)"

text \<open>
  A state is a fair start for given market data unless an evaluation with that data
  leaves it for a state that is left in turn: TRIGGERED with the reset due (COOLDOWN
  follows, and IDLE after it), and COOLDOWN with the condition met (once the cooldown has
  expired one evaluation goes to IDLE and on to TRIGGERED).
\<close>

definition rule_start_ok :: "AlertRule \<Rightarrow> market_data \<Rightarrow> AlertStateEnum \<Rightarrow> bool" where
  "rule_start_ok r d st =
     ((st = TRIGGERED \<longrightarrow> \<not> should_reset r (snd (check_condition r d)))
      \<and> (st = COOLDOWN \<longrightarrow> \<not> fst (check_condition r d)))"

text \<open>
  The thresholds are ordered when leaving WATCH asks for less than entering it, as the
  defaults do. For a given snapshot a state of a sector is settled when a call with that
  snapshot leaves it where it is.
\<close>

definition hysteresis_ordered :: "StateThresholds \<Rightarrow> bool" where
  "hysteresis_ordered th =
     (watch_exit_dip th \<le> watch_dip_min th \<and> watch_exit_rsi40 th \<le> watch_rsi40_breadth_min th)"

definition sector_settled :: "StateThresholds \<Rightarrow> metrics \<Rightarrow> SectorState \<Rightarrow> bool" where
  "sector_settled th m st =
     (if meets_alert_criteria th m then st = ALERT
      else if st = WATCH then \<not> should_exit_watch th m
      else st = NORMAL \<and> \<not> meets_watch_criteria th m)"


section \<open>Concrete inputs\<close>

text \<open>A rule as the rule store would hold it, and a clock reading at noon.\<close>

definition example_rule :: AlertRule where
  "example_rule =
     \<lparr>ar_id = ''r1'', ar_user_id = ''default_user'', ar_symbol = ''TCS'',
      condition = DIP_GT, threshold = 5, debounce_seconds = 0, hysteresis_reset = 0,
      confirm_window_seconds = 0, enabled = True, cooldown_seconds = 3600,
      priority = MEDIUM\<rparr>"

definition example_tick :: Tick where
  "example_tick =
     \<lparr>now = 0, local_time = time_of_day 12 0, today = ''20240102'', dispatch_ok = True\<rparr>"


text \<open>A clock reading of the sector machine.\<close>

definition example_clock :: SectorClock where
  "example_clock = \<lparr>sc_now = 0, sc_epoch = ''1700000000''\<rparr>"




section \<open>Properties of the dip classifier\<close>

text \<open>
  Claim C8. For every current price and every 52-week high, \<open>classify_dip\<close> returns the
  dip percentage clamped at 0 together with the class of the right-open band that holds
  it: [0,3) NONE, [3,5) MICRO, [5,8) MINOR, [8,12) MODERATE, [12,15) SIGNIFICANT,
  [15,25) MAJOR, [25,\<infinity>) EXTREME. A dip of exactly 8 (price 92 under a high of 100) is
  MODERATE and a dip of 7.999 (price 92.001) is MINOR.
\<close>

theorem classify_dip_bands:
  "classify_dip p h = Inr (spec_dip_pct p h, spec_dip_band (spec_dip_pct p h))
   \<and> classify_dip 92 100 = Inr (8, MODERATE)
   \<and> classify_dip 92.001 100 = Inr (7.999, MINOR)"
  by (simp add: classify_dip_def py_truediv_def spec_dip_pct_def spec_dip_band_def Let_def)

theorem classify_dip_bands_witness:
  "classify_dip 88 100 = Inr (12, SIGNIFICANT)"
  using classify_dip_bands [of 88 100]
  by (simp add: spec_dip_pct_def spec_dip_band_def)

text \<open>
  Claim C10. \<open>classify_dip\<close> never raises: it returns a pair for every price and every
  high, the division being guarded. With a high of 0 the pair is (0, NONE); whenever the
  raw dip is negative, as it is when the price exceeds a positive high, the pair is
  (0, NONE). \<open>analyze_dip\<close> on an empty list of closes or of highs returns dip 0 with class
  NONE and no error.
\<close>

theorem classify_dip_total:
  "(\<exists>d c. classify_dip p h = Inr (d, c))
   \<and> classify_dip p 0 = Inr (0, NONE)
   \<and> (h \<noteq> 0 \<and> (h - p) / h * 100 < 0 \<longrightarrow> classify_dip p h = Inr (0, NONE))
   \<and> (0 < h \<and> h < p \<longrightarrow> classify_dip p h = Inr (0, NONE))
   \<and> (closes = [] \<or> highs = [] \<longrightarrow>
        (\<exists>a. analyze_dip name closes highs dates lookback = Inr a
             \<and> da_dip_pct a = 0 \<and> da_dip_class a = NONE))"
proof -
  have neg: "(h - p) / h * 100 < 0" if "0 < h" "h < p"
  proof -
    have "(h - p) / h < 0" using that by (simp add: divide_neg_pos)
    then show ?thesis by (rule mult_neg_pos) simp
  qed
  have total: "\<exists>d c. classify_dip p h = Inr (d, c)"
    by (simp add: classify_dip_def py_truediv_def Let_def)
  have zero: "classify_dip p 0 = Inr (0, NONE)"
    by (simp add: classify_dip_def)
  have raw: "h \<noteq> 0 \<and> (h - p) / h * 100 < 0 \<longrightarrow> classify_dip p h = Inr (0, NONE)"
    by (simp add: classify_dip_def py_truediv_def Let_def)
  have above: "0 < h \<and> h < p \<longrightarrow> classify_dip p h = Inr (0, NONE)"
    using neg raw by auto
  have empty: "closes = [] \<or> highs = [] \<longrightarrow>
        (\<exists>a. analyze_dip name closes highs dates lookback = Inr a
             \<and> da_dip_pct a = 0 \<and> da_dip_class a = NONE)"
    by (auto simp add: analyze_dip_def)
  from total zero raw above empty show ?thesis by blast
qed

theorem classify_dip_total_witness:
  "classify_dip 120 100 = Inr (0, NONE)
   \<and> (\<exists>a. analyze_dip ''TCS'' [] [] None 365 = Inr a
          \<and> da_dip_pct a = 0 \<and> da_dip_class a = NONE)"
proof -
  have h: "(0::real) < 100 \<and> (100::real) < 120" by simp
  have e: "([]::real list) = [] \<or> ([]::real list) = []" by simp
  from classify_dip_total [of 120 100 "[]" "[]" "''TCS''" None 365] h e
  show ?thesis by blast
qed


section \<open>Properties of the alert engine\<close>

subsection \<open>What one evaluation does to a state\<close>

lemma trigger_alert_state:
  "trigger_alert tk rule state v eng = (s', e') \<Longrightarrow>
     as_state s' = TRIGGERED \<and> cooldown_until s' = cooldown_until state
     \<and> first_signal_at s' = first_signal_at state
     \<and> last_triggered_at s' = Some (now tk)
     \<and> as_rule_id s' = as_rule_id state
     \<and> state_cache e' = state_cache eng"
  by (auto simp add: trigger_alert_def transition_def log_suppression_def consume_budget_def
      Let_def split: option.splits if_splits)

lemma evaluate_state_invariant:
  assumes "alert_invariant s" and "evaluate_state tk r d s e = Some (s', e')"
  shows "alert_invariant s' \<and> state_cache e' = state_cache e"
  using assms
  by (auto simp add: evaluate_state_def alert_invariant_def transition_def Let_def
      split: option.splits if_splits prod.splits AlertStateEnum.splits
      dest!: trigger_alert_state)

lemma get_state_invariant:
  "(\<forall>k s. state_cache eng k = Some s \<longrightarrow> alert_invariant s) \<Longrightarrow>
   alert_invariant (get_state eng rid sy t)"
  by (auto simp add: get_state_def alert_invariant_def split: option.splits)

lemma evaluate_rule_invariant:
  assumes "\<forall>k s. state_cache eng k = Some s \<longrightarrow> alert_invariant s"
  shows "\<forall>k s. state_cache (evaluate_rule tk r d eng) k = Some s \<longrightarrow> alert_invariant s"
proof (cases "evaluate_state tk r d (get_state eng (ar_id r) (ar_symbol r) (now tk)) eng")
  case None
  then show ?thesis using assms by (simp add: evaluate_rule_def)
next
  case (Some p)
  obtain s' e' where p: "p = (s', e')" by (cases p)
  from evaluate_state_invariant [OF get_state_invariant [OF assms] Some [unfolded p]]
  have "alert_invariant s'" and "state_cache e' = state_cache eng" by auto
  then show ?thesis using assms Some p
    by (auto simp add: evaluate_rule_def save_state_def)
qed

subsection \<open>The invariants of a rule's state\<close>

text \<open>
  Claim C1, as amended. In every run of the engine that starts from a state cache whose
  states satisfy it (the empty cache does), after each evaluation every cached state
  satisfies: if the state is COOLDOWN then \<open>cooldown_until\<close> is set, and if the state is
  ARMED then \<open>first_signal_at\<close> is set. The runs are all the lists of evaluations, so the
  property holds after each of them, whatever the rules, clock readings and market data.
\<close>

theorem alert_state_invariant:
  "(\<forall>k s. state_cache eng k = Some s \<longrightarrow> alert_invariant s) \<Longrightarrow>
   (\<forall>k s. state_cache (run_rules ticks eng) k = Some s \<longrightarrow> alert_invariant s)"
proof (induction ticks arbitrary: eng)
  case Nil
  then show ?case by simp
next
  case (Cons x ticks)
  obtain tk r d where x: "x = (tk, r, d)" by (cases x)
  show ?case unfolding x run_rules.simps
    by (rule Cons.IH) (rule evaluate_rule_invariant [OF Cons.prems])
qed

theorem alert_state_invariant_witness:
  "alert_invariant
     (get_state
        (run_rules
           [(example_tick, example_rule\<lparr>debounce_seconds := 10\<rparr>, [''dip_percent'' \<mapsto> 6]),
            (example_tick\<lparr>now := 5\<rparr>, example_rule\<lparr>debounce_seconds := 10\<rparr>,
             [''dip_percent'' \<mapsto> 4])]
           (AlertEngine_init None))
        ''r1'' ''TCS'' 5)"
proof -
  have "\<forall>k s. state_cache (AlertEngine_init None) k = Some s \<longrightarrow> alert_invariant s"
    by (simp add: AlertEngine_init_def)
  then show ?thesis
    by (intro get_state_invariant alert_state_invariant)
qed

text \<open>
  Claim C1 as the specification states it fails. A rule with a debounce of 10 seconds
  sees a dip of 6 and is ARMED with \<open>first_signal_at\<close> set; five seconds later it sees a
  dip of 4 and goes back to IDLE, and \<open>first_signal_at\<close> is still set: nothing in the
  engine clears it, nor \<open>cooldown_until\<close>.
\<close>

theorem alert_state_invariant_counterexample:
  "\<not> spec_alert_invariant
      (get_state
        (run_rules
           [(example_tick, example_rule\<lparr>debounce_seconds := 10\<rparr>, [''dip_percent'' \<mapsto> 6]),
            (example_tick\<lparr>now := 5\<rparr>, example_rule\<lparr>debounce_seconds := 10\<rparr>,
             [''dip_percent'' \<mapsto> 4])]
           (AlertEngine_init None))
        ''r1'' ''TCS'' 5)"
  by (simp add: spec_alert_invariant_def get_state_def evaluate_rule_def evaluate_state_def
      check_condition_def dict_get_def transition_def save_state_def AlertEngine_init_def
      example_rule_def example_tick_def state_key_def Let_def)

subsection \<open>The reset predicate\<close>

text \<open>
  Claim C2, as amended. A rule in state TRIGGERED moves to COOLDOWN exactly when
  \<open>should_reset\<close> holds of the current value, and stays TRIGGERED otherwise. For DIP_GT
  the predicate is value < threshold - hysteresis. For RSI_LT it is
  value > threshold + hysteresis when the hysteresis is not 0, and value \<ge> threshold when
  it is 0. For every other condition the rule resets whenever its trigger condition
  evaluates false. With hysteresis 0 the predicate of DIP_GT and of RSI_LT is the plain
  inverse of the trigger condition.
\<close>

theorem should_reset_cases:
  "(condition r = DIP_GT \<longrightarrow> should_reset r v = (v < threshold r - hysteresis_reset r))
   \<and> (condition r = RSI_LT \<longrightarrow> should_reset r v =
         (if hysteresis_reset r = 0 then v \<ge> threshold r
          else v > threshold r + hysteresis_reset r))
   \<and> (condition r \<noteq> DIP_GT \<and> condition r \<noteq> RSI_LT \<and> \<not> fst (check_condition r d)
         \<longrightarrow> should_reset r (snd (check_condition r d)))
   \<and> (hysteresis_reset r = 0 \<and> (condition r = DIP_GT \<or> condition r = RSI_LT)
         \<longrightarrow> should_reset r (snd (check_condition r d)) = (\<not> fst (check_condition r d)))
   \<and> (as_state s = TRIGGERED \<longrightarrow>
         (\<exists>s' e'. evaluate_state tk r d s e = Some (s', e')
            \<and> as_state s' =
                (if should_reset r (snd (check_condition r d)) then COOLDOWN else TRIGGERED)))"
  by (auto simp add: should_reset_def check_condition_def evaluate_state_def transition_def
      Let_def split: prod.splits)

theorem should_reset_cases_witness:
  "should_reset (example_rule\<lparr>hysteresis_reset := 2\<rparr>) 4 = False
   \<and> should_reset (example_rule\<lparr>condition := RSI_LT, threshold := 30\<rparr>) 30 = True
   \<and> should_reset (example_rule\<lparr>condition := MACD_BULLISH, threshold := 0\<rparr>)
        (snd (check_condition (example_rule\<lparr>condition := MACD_BULLISH, threshold := 0\<rparr>)
           [''macd_hist'' \<mapsto> - 1]))
   \<and> (\<exists>s' e'. evaluate_state example_tick (example_rule\<lparr>hysteresis_reset := 2\<rparr>)
          [''dip_percent'' \<mapsto> 5 / 2]
          ((get_state (AlertEngine_init None) ''r1'' ''TCS'' 0)\<lparr>as_state := TRIGGERED\<rparr>)
          (AlertEngine_init None) = Some (s', e')
        \<and> as_state s' = COOLDOWN)"
proof -
  let ?dip = "example_rule\<lparr>hysteresis_reset := 2\<rparr>"
  let ?rsi = "example_rule\<lparr>condition := RSI_LT, threshold := 30\<rparr>"
  let ?macd = "example_rule\<lparr>condition := MACD_BULLISH, threshold := 0\<rparr>"
  let ?d = "[''dip_percent'' \<mapsto> 5 / 2] :: market_data"
  let ?m = "[''macd_hist'' \<mapsto> - 1] :: market_data"
  let ?s = "(get_state (AlertEngine_init None) ''r1'' ''TCS'' 0)\<lparr>as_state := TRIGGERED\<rparr>"
  have "condition ?dip = DIP_GT" by (simp add: example_rule_def)
  with should_reset_cases [of ?dip 4]
  have "should_reset ?dip 4 = (4 < threshold ?dip - hysteresis_reset ?dip)" by blast
  then have a: "should_reset ?dip 4 = False" by (simp add: example_rule_def)
  have "condition ?rsi = RSI_LT" by (simp add: example_rule_def)
  with should_reset_cases [of ?rsi 30]
  have "should_reset ?rsi 30 =
      (if hysteresis_reset ?rsi = 0 then 30 \<ge> threshold ?rsi
       else 30 > threshold ?rsi + hysteresis_reset ?rsi)" by blast
  then have b: "should_reset ?rsi 30 = True" by (simp add: example_rule_def)
  have "condition ?macd \<noteq> DIP_GT \<and> condition ?macd \<noteq> RSI_LT
      \<and> \<not> fst (check_condition ?macd ?m)"
    by (simp add: example_rule_def check_condition_def dict_get_def)
  with should_reset_cases [of ?macd _ ?m]
  have c: "should_reset ?macd (snd (check_condition ?macd ?m))" by blast
  have v: "snd (check_condition ?dip ?d) = 5 / 2"
    by (simp add: example_rule_def check_condition_def dict_get_def)
  have "condition ?dip = DIP_GT" by (simp add: example_rule_def)
  with should_reset_cases [of ?dip "5 / 2"]
  have "should_reset ?dip (5 / 2) = (5 / 2 < threshold ?dip - hysteresis_reset ?dip)"
    by blast
  then have r: "should_reset ?dip (snd (check_condition ?dip ?d))"
    unfolding v by (simp add: example_rule_def)
  have "as_state ?s = TRIGGERED" by simp
  with should_reset_cases [of ?dip _ ?d ?s example_tick "AlertEngine_init None"]
  have "\<exists>s' e'. evaluate_state example_tick ?dip ?d ?s (AlertEngine_init None) = Some (s', e')
      \<and> as_state s' =
          (if should_reset ?dip (snd (check_condition ?dip ?d)) then COOLDOWN else TRIGGERED)"
    by blast
  with r have d: "\<exists>s' e'. evaluate_state example_tick ?dip ?d ?s (AlertEngine_init None)
      = Some (s', e') \<and> as_state s' = COOLDOWN" by simp
  from a b c d show ?thesis by blast
qed

text \<open>
  Claim C2 as the specification states it fails twice. An RSI_LT rule with threshold 30
  and hysteresis 0 resets at the value 30, which is not above threshold + hysteresis.
  A MACD_BULLISH rule with threshold 0 whose condition is met at a histogram of 1 resets
  all the same: for the conditions other than DIP_GT and RSI_LT the predicate is true
  whatever the value.
\<close>

theorem should_reset_counterexample:
  "should_reset (example_rule\<lparr>condition := RSI_LT, threshold := 30\<rparr>)
      (snd (check_condition (example_rule\<lparr>condition := RSI_LT, threshold := 30\<rparr>)
         [''rsi'' \<mapsto> 30]))
   \<and> \<not> spec_should_reset (example_rule\<lparr>condition := RSI_LT, threshold := 30\<rparr>)
         [''rsi'' \<mapsto> 30]
   \<and> fst (check_condition (example_rule\<lparr>condition := MACD_BULLISH, threshold := 0\<rparr>)
         [''macd_hist'' \<mapsto> 1])
   \<and> should_reset (example_rule\<lparr>condition := MACD_BULLISH, threshold := 0\<rparr>)
         (snd (check_condition (example_rule\<lparr>condition := MACD_BULLISH, threshold := 0\<rparr>)
            [''macd_hist'' \<mapsto> 1]))
   \<and> \<not> spec_should_reset (example_rule\<lparr>condition := MACD_BULLISH, threshold := 0\<rparr>)
         [''macd_hist'' \<mapsto> 1]"
  by (simp add: should_reset_def spec_should_reset_def check_condition_def example_rule_def
      dict_get_def)

subsection \<open>The condition PRE\_SCORE\_GT\<close>

text \<open>
  Claim C5. The rule model documents PRE_SCORE_GT as "Pre-Score > X", but the condition
  has no branch in \<open>check_condition\<close>: for a rule with threshold 5 and market data with a
  pre-score of 8 the evaluation returns \<open>(False, 0)\<close>, not \<open>(True, 8)\<close>.
\<close>

theorem check_condition_pre_score_gt:
  "check_condition (example_rule\<lparr>condition := PRE_SCORE_GT\<rparr>) [''pre_score'' \<mapsto> 8]
     = (False, 0)"
  by (simp add: check_condition_def example_rule_def)

subsection \<open>Quiet hours\<close>

text \<open>
  Claim C7, as amended. The quiet-hours window of the code is closed at both ends: it is
  the right-open window of the specification together with the instant QUIET_END. For
  every fire attempt by a rule whose priority is not HIGH while the local time lies in
  that closed window, exactly one suppression is appended to the log, with reason
  QUIET_HOURS; the state becomes TRIGGERED, \<open>last_triggered_at\<close> is the clock reading, and
  nothing is dispatched. At a time outside the closed window no suppression with reason
  QUIET_HOURS is logged.
\<close>

theorem quiet_hours_suppression:
  "(priority rule \<noteq> HIGH \<and> is_quiet_hours (noise_control eng) (local_time tk) \<longrightarrow>
      suppression_logs (snd (trigger_alert tk rule state v eng)) =
        suppression_logs eng @ [\<lparr>sl_rule_id = ar_id rule, sl_symbol = ar_symbol rule,
                                 sl_timestamp = now tk, sl_reason = QUIET_HOURS\<rparr>]
      \<and> as_state (fst (trigger_alert tk rule state v eng)) = TRIGGERED
      \<and> last_triggered_at (fst (trigger_alert tk rule state v eng)) = Some (now tk)
      \<and> dispatched (snd (trigger_alert tk rule state v eng)) = dispatched eng)
   \<and> (\<not> is_quiet_hours (noise_control eng) (local_time tk) \<longrightarrow>
        QUIET_HOURS \<notin> sl_reason ` set (drop (length (suppression_logs eng))
            (suppression_logs (snd (trigger_alert tk rule state v eng)))))
   \<and> is_quiet_hours nc t = (spec_quiet_window nc t \<or> t = QUIET_END nc)"
  by (auto simp add: trigger_alert_def is_quiet_hours_def spec_quiet_window_def transition_def
      log_suppression_def check_budget_def Let_def split: option.splits if_splits)

theorem quiet_hours_suppression_witness:
  "suppression_logs (snd (trigger_alert (example_tick\<lparr>local_time := time_of_day 23 30\<rparr>)
       example_rule (get_state (AlertEngine_init None) ''r1'' ''TCS'' 0) 6
       (AlertEngine_init None)))
     = [\<lparr>sl_rule_id = ''r1'', sl_symbol = ''TCS'', sl_timestamp = 0, sl_reason = QUIET_HOURS\<rparr>]
   \<and> dispatched (snd (trigger_alert (example_tick\<lparr>local_time := time_of_day 23 30\<rparr>)
       example_rule (get_state (AlertEngine_init None) ''r1'' ''TCS'' 0) 6
       (AlertEngine_init None))) = []
   \<and> QUIET_HOURS \<notin> sl_reason ` set
       (suppression_logs (snd (trigger_alert example_tick
          example_rule (get_state (AlertEngine_init None) ''r1'' ''TCS'' 0) 6
          (AlertEngine_init None))))"
  using
    quiet_hours_suppression [of example_rule "AlertEngine_init None"
      "example_tick\<lparr>local_time := time_of_day 23 30\<rparr>"
      "get_state (AlertEngine_init None) ''r1'' ''TCS'' 0" 6]
    quiet_hours_suppression [of example_rule "AlertEngine_init None" example_tick
      "get_state (AlertEngine_init None) ''r1'' ''TCS'' 0" 6]
  by (simp add: example_rule_def example_tick_def AlertEngine_init_def NoiseControl_init_def
      is_quiet_hours_def time_of_day_def)

text \<open>
  Claim C7 as the specification states it fails at the instant QUIET_END. At 08:00
  exactly, which the right-open window 22:00 to 08:00 leaves out, a fire attempt of a
  MEDIUM rule is suppressed with reason QUIET_HOURS and nothing is dispatched.
\<close>

theorem quiet_hours_counterexample:
  "\<not> spec_quiet_window (NoiseControl_init None) (time_of_day 8 0)
   \<and> suppression_logs (snd (trigger_alert (example_tick\<lparr>local_time := time_of_day 8 0\<rparr>)
        example_rule (get_state (AlertEngine_init None) ''r1'' ''TCS'' 0) 6
        (AlertEngine_init None)))
     = [\<lparr>sl_rule_id = ''r1'', sl_symbol = ''TCS'', sl_timestamp = 0, sl_reason = QUIET_HOURS\<rparr>]
   \<and> dispatched (snd (trigger_alert (example_tick\<lparr>local_time := time_of_day 8 0\<rparr>)
        example_rule (get_state (AlertEngine_init None) ''r1'' ''TCS'' 0) 6
        (AlertEngine_init None))) = []"
  by (simp add: spec_quiet_window_def trigger_alert_def is_quiet_hours_def
      NoiseControl_init_def AlertEngine_init_def time_of_day_def example_tick_def
      example_rule_def log_suppression_def Let_def get_state_def transition_def)



section \<open>Properties of the sector state machine\<close>

subsection \<open>What one call does to the records\<close>

lemma update_state_other:
  "k \<noteq> sid \<Longrightarrow> sector_states (fst (update_state clk sid m sm)) k = sector_states sm k"
  by (simp add: update_state_def Let_def split: prod.splits)

lemma transition_logic_cases:
  assumes "transition_logic th t m r0 = (new, reason, r1)"
  shows "(r1 = r0 \<and> new \<noteq> SECTOR_COOLDOWN)
       \<or> (r1 = r0 \<and> new = SECTOR_COOLDOWN \<and> current_state r0 = SECTOR_COOLDOWN)
       \<or> (new = SECTOR_COOLDOWN \<and> sector_cooldown_until r1 \<noteq> None
            \<and> last_alert_metrics r1 \<noteq> None)"
  using assms
  by (cases "current_state r0") (auto simp add: transition_logic_def split: if_splits)

lemma update_state_at:
  assumes "\<forall>r. sector_states sm sid = Some r \<longrightarrow> sector_invariant r"
  shows "\<exists>r'. sector_states (fst (update_state clk sid m sm)) sid = Some r'
            \<and> sector_invariant r'"
proof -
  define r0 where "r0 = (case sector_states sm sid of
               None \<Rightarrow>
                 \<lparr>sector_id = sid, current_state = NORMAL, last_transition = sc_now clk,
                  sector_cooldown_until = None, last_alert_metrics = None,
                  state_history = []\<rparr>
             | Some r \<Rightarrow> r)"
  have inv0: "sector_invariant r0"
    using assms by (auto simp add: r0_def sector_invariant_def split: option.splits)
  obtain new reason r1
    where tl: "transition_logic (thresholds sm) (sc_now clk) m r0 = (new, reason, r1)"
    by (cases "transition_logic (thresholds sm) (sc_now clk) m r0") auto
  from transition_logic_cases [OF tl] inv0
  have a: "new = SECTOR_COOLDOWN \<longrightarrow>
      sector_cooldown_until r1 \<noteq> None \<and> last_alert_metrics r1 \<noteq> None"
    by (auto simp add: sector_invariant_def)
  have b: "new = current_state r0 \<longrightarrow> sector_invariant r1"
    using transition_logic_cases [OF tl] inv0 by (auto simp add: sector_invariant_def)
  show ?thesis
    using a b tl unfolding update_state_def Let_def r0_def [symmetric]
    by (auto simp add: sector_invariant_def)
qed

lemma update_state_invariant:
  assumes "\<forall>k r. sector_states sm k = Some r \<longrightarrow> sector_invariant r"
  shows "\<forall>k r. sector_states (fst (update_state clk sid m sm)) k = Some r
           \<longrightarrow> sector_invariant r"
proof (intro allI impI)
  fix k r assume h: "sector_states (fst (update_state clk sid m sm)) k = Some r"
  show "sector_invariant r"
  proof (cases "k = sid")
    case True
    with update_state_at [of sm sid clk m] assms h show ?thesis by auto
  next
    case False
    with update_state_other [of k sid clk m sm] assms h show ?thesis by auto
  qed
qed

subsection \<open>The invariants of a sector's record\<close>

text \<open>
  Claim C3, as amended. In every sequence of \<open>update_state\<close> calls that starts from
  records satisfying it (a machine with no record does), after each call every record
  satisfies: if the current state is COOLDOWN then \<open>cooldown_until\<close> is set and
  \<open>last_alert_metrics\<close> is set. The sequences are all the lists of calls, so the property
  holds after each call, whatever the sectors, clock readings and snapshots.
\<close>

theorem sector_record_invariant:
  "(\<forall>k r. sector_states sm k = Some r \<longrightarrow> sector_invariant r) \<Longrightarrow>
   (\<forall>k r. sector_states (run_sectors calls sm) k = Some r \<longrightarrow> sector_invariant r)"
proof (induction calls arbitrary: sm)
  case Nil
  then show ?case by simp
next
  case (Cons x calls)
  obtain clk sid m where x: "x = (clk, sid, m)" by (cases x)
  show ?case unfolding x run_sectors.simps
    by (rule Cons.IH) (rule update_state_invariant [OF Cons.prems])
qed

theorem sector_record_invariant_witness:
  "\<exists>r. sector_states (run_sectors
       [(example_clock, ''it'', [''dip_pct'' \<mapsto> 9, ''rsi40_breadth'' \<mapsto> 0.5]),
        (example_clock\<lparr>sc_now := 60\<rparr>, ''it'', [''dip_pct'' \<mapsto> 6, ''rsi40_breadth'' \<mapsto> 0.5])]
       (SectorStateMachine_init None)) ''it'' = Some r
     \<and> current_state r = SECTOR_COOLDOWN \<and> sector_invariant r"
proof -
  let ?sm = "run_sectors
       [(example_clock, ''it'', [''dip_pct'' \<mapsto> 9, ''rsi40_breadth'' \<mapsto> 0.5]),
        (example_clock\<lparr>sc_now := 60\<rparr>, ''it'', [''dip_pct'' \<mapsto> 6, ''rsi40_breadth'' \<mapsto> 0.5])]
       (SectorStateMachine_init None)"
  have "\<forall>k r. sector_states (SectorStateMachine_init None) k = Some r \<longrightarrow> sector_invariant r"
    by (simp add: SectorStateMachine_init_def)
  then have inv: "\<forall>k r. sector_states ?sm k = Some r \<longrightarrow> sector_invariant r"
    by (rule sector_record_invariant)
  have "\<exists>r. sector_states ?sm ''it'' = Some r \<and> current_state r = SECTOR_COOLDOWN"
    by (simp add: update_state_def transition_logic_def SectorStateMachine_init_def
        StateThresholds_default_def meets_alert_criteria_def should_exit_alert_def
        dict_get_def example_clock_def Let_def)
  with inv show ?thesis by blast
qed

text \<open>
  Claim C3 as the specification states it fails in both of its parts. A new sector
  whose first snapshot has a dip of 9 and an RSI<40 breadth of 0.5 enters ALERT with
  \<open>last_alert_metrics\<close> unset: the field is written only on the way out of ALERT. The
  sector then leaves ALERT for COOLDOWN at a dip of 6, and once the cooldown has expired
  it is NORMAL with \<open>cooldown_until\<close> still set: nothing in the machine clears it.
\<close>

theorem sector_record_invariant_counterexample:
  "(\<exists>r. sector_states (run_sectors
       [(example_clock, ''it'', [''dip_pct'' \<mapsto> 9, ''rsi40_breadth'' \<mapsto> 0.5])]
       (SectorStateMachine_init None)) ''it'' = Some r
     \<and> current_state r = ALERT \<and> last_alert_metrics r = None
     \<and> \<not> spec_sector_invariant r)
   \<and> (\<exists>r. sector_states (run_sectors
       [(example_clock, ''it'', [''dip_pct'' \<mapsto> 9, ''rsi40_breadth'' \<mapsto> 0.5]),
        (example_clock\<lparr>sc_now := 60\<rparr>, ''it'', [''dip_pct'' \<mapsto> 6, ''rsi40_breadth'' \<mapsto> 0.5]),
        (example_clock\<lparr>sc_now := 2000\<rparr>, ''it'', [''dip_pct'' \<mapsto> 6, ''rsi40_breadth'' \<mapsto> 0.5])]
       (SectorStateMachine_init None)) ''it'' = Some r
     \<and> current_state r = NORMAL \<and> sector_cooldown_until r = Some 1860
     \<and> \<not> spec_sector_invariant r)"
proof
  show "\<exists>r. sector_states (run_sectors
       [(example_clock, ''it'', [''dip_pct'' \<mapsto> 9, ''rsi40_breadth'' \<mapsto> 0.5])]
       (SectorStateMachine_init None)) ''it'' = Some r
     \<and> current_state r = ALERT \<and> last_alert_metrics r = None
     \<and> \<not> spec_sector_invariant r"
    by (simp add: update_state_def transition_logic_def SectorStateMachine_init_def
        StateThresholds_default_def meets_alert_criteria_def dict_get_def
        spec_sector_invariant_def example_clock_def Let_def)
  show "\<exists>r. sector_states (run_sectors
       [(example_clock, ''it'', [''dip_pct'' \<mapsto> 9, ''rsi40_breadth'' \<mapsto> 0.5]),
        (example_clock\<lparr>sc_now := 60\<rparr>, ''it'', [''dip_pct'' \<mapsto> 6, ''rsi40_breadth'' \<mapsto> 0.5]),
        (example_clock\<lparr>sc_now := 2000\<rparr>, ''it'', [''dip_pct'' \<mapsto> 6, ''rsi40_breadth'' \<mapsto> 0.5])]
       (SectorStateMachine_init None)) ''it'' = Some r
     \<and> current_state r = NORMAL \<and> sector_cooldown_until r = Some 1860
     \<and> \<not> spec_sector_invariant r"
    by (simp add: update_state_def transition_logic_def SectorStateMachine_init_def
        StateThresholds_default_def meets_alert_criteria_def meets_watch_criteria_def
        should_exit_alert_def dict_get_def spec_sector_invariant_def example_clock_def
        Let_def slice_from_neg_def)
qed




section \<open>Identical inputs\<close>

subsection \<open>A steady rule under the same market data\<close>

lemma met_no_reset:
  "(condition r = DIP_GT \<or> condition r = RSI_LT) \<Longrightarrow> hysteresis_reset r \<ge> 0 \<Longrightarrow>
   fst (check_condition r d) \<Longrightarrow> \<not> should_reset r (snd (check_condition r d))"
  by (auto simp add: check_condition_def should_reset_def Let_def)

lemma trigger_alert_log:
  "trigger_alert tk rule state v eng = (s', e') \<Longrightarrow>
     transition_log e' = transition_log eng @ [(as_rule_id state, TRIGGERED)]"
  by (auto simp add: trigger_alert_def transition_def log_suppression_def consume_budget_def
      Let_def split: option.splits if_splits)

lemma evaluate_state_ids:
  "evaluate_state tk r d s e = Some (s', e') \<Longrightarrow>
     as_rule_id s' = as_rule_id s \<and> state_cache e' = state_cache e"
  by (auto simp add: evaluate_state_def transition_def Let_def
      split: option.splits if_splits prod.splits AlertStateEnum.splits
      dest!: trigger_alert_state)

lemma evaluate_state_settled:
  assumes "rule_steady r d" and "evaluate_state tk r d s e = Some (s', e')"
    and "rule_settled r d (as_state s)"
  shows "as_state s' = as_state s \<and> transition_log e' = transition_log e"
  using assms met_no_reset [of r d]
  by (auto simp add: rule_steady_def rule_settled_def evaluate_state_def transition_def Let_def
      split: option.splits if_splits prod.splits AlertStateEnum.splits
      dest!: trigger_alert_state)

lemma evaluate_state_settles:
  assumes "rule_steady r d" and "evaluate_state tk r d s e = Some (s', e')"
    and "rule_start_ok r d (as_state s)"
  shows "(as_state s' = as_state s \<and> transition_log e' = transition_log e)
       \<or> (rule_settled r d (as_state s')
           \<and> length (transition_log e') = Suc (length (transition_log e)))"
proof (cases "as_state s")
  case IDLE
  with assms met_no_reset [of r d] show ?thesis
    by (auto simp add: rule_steady_def rule_settled_def rule_start_ok_def evaluate_state_def
        Let_def split: prod.splits if_splits dest: trigger_alert_state trigger_alert_log)
next
  case ARMED
  with assms met_no_reset [of r d] show ?thesis
    by (auto simp add: rule_steady_def rule_settled_def rule_start_ok_def evaluate_state_def
        transition_def Let_def split: prod.splits if_splits option.splits
        dest: trigger_alert_state trigger_alert_log)
next
  case TRIGGERED
  with assms show ?thesis
    by (auto simp add: rule_start_ok_def evaluate_state_def
        Let_def split: prod.splits if_splits)
next
  case COOLDOWN
  with assms show ?thesis
    by (auto simp add: rule_settled_def rule_start_ok_def evaluate_state_def
        transition_def Let_def split: prod.splits if_splits option.splits)
qed


lemma get_state_as_state:
  "as_state (get_state eng i sy t) = as_state (get_state eng i sy t')"
  by (simp add: get_state_def split: option.splits)

lemma get_state_id:
  "cache_keyed eng \<Longrightarrow> as_rule_id (get_state eng i sy t) = i"
  by (auto simp add: cache_keyed_def get_state_def state_key_def split: option.splits)

lemma evaluate_rule_keyed:
  assumes "cache_keyed eng"
  shows "cache_keyed (evaluate_rule tk r d eng)"
proof (cases "evaluate_state tk r d (get_state eng (ar_id r) (ar_symbol r) (now tk)) eng")
  case None
  with assms show ?thesis by (simp add: evaluate_rule_def)
next
  case (Some p)
  obtain s' e' where p: "p = (s', e')" by (cases p)
  from evaluate_state_ids [OF Some [unfolded p]]
  have "state_cache e' = state_cache eng" by simp
  with assms Some p show ?thesis
    by (auto simp add: evaluate_rule_def save_state_def cache_keyed_def)
qed

lemma evaluate_rule_step:
  assumes "cache_keyed eng"
  shows "evaluate_rule tk r d eng = eng
   \<or> (\<exists>s' e'. evaluate_state tk r d (get_state eng (ar_id r) (ar_symbol r) (now tk)) eng
                 = Some (s', e')
              \<and> current_alert_state (evaluate_rule tk r d eng) r = as_state s'
              \<and> transition_log (evaluate_rule tk r d eng) = transition_log e')"
proof (cases "evaluate_state tk r d (get_state eng (ar_id r) (ar_symbol r) (now tk)) eng")
  case None
  then show ?thesis by (simp add: evaluate_rule_def)
next
  case (Some p)
  obtain s' e' where p: "p = (s', e')" by (cases p)
  from evaluate_state_ids [OF Some [unfolded p]] get_state_id [OF assms]
  have i: "as_rule_id s' = ar_id r" by simp
  have "current_alert_state (evaluate_rule tk r d eng) r = as_state s'"
    using Some p i
    by (simp add: evaluate_rule_def save_state_def current_alert_state_def get_state_def)
  moreover have "transition_log (evaluate_rule tk r d eng) = transition_log e'"
    using Some p by (simp add: evaluate_rule_def save_state_def)
  ultimately show ?thesis using Some p by simp
qed

lemma rule_step_settled:
  assumes "rule_steady r d" and "cache_keyed eng"
    and "rule_settled r d (current_alert_state eng r)"
  shows "current_alert_state (evaluate_rule tk r d eng) r = current_alert_state eng r
       \<and> transition_log (evaluate_rule tk r d eng) = transition_log eng"
proof -
  have a: "as_state (get_state eng (ar_id r) (ar_symbol r) (now tk)) = current_alert_state eng r"
    unfolding current_alert_state_def by (rule get_state_as_state)
  from evaluate_rule_step [OF assms(2), of tk r d] show ?thesis
  proof
    assume "evaluate_rule tk r d eng = eng"
    then show ?thesis by simp
  next
    assume "\<exists>s' e'. evaluate_state tk r d (get_state eng (ar_id r) (ar_symbol r) (now tk)) eng
                 = Some (s', e')
              \<and> current_alert_state (evaluate_rule tk r d eng) r = as_state s'
              \<and> transition_log (evaluate_rule tk r d eng) = transition_log e'"
    then obtain s' e' where
      e: "evaluate_state tk r d (get_state eng (ar_id r) (ar_symbol r) (now tk)) eng = Some (s', e')"
      and c: "current_alert_state (evaluate_rule tk r d eng) r = as_state s'"
      and l: "transition_log (evaluate_rule tk r d eng) = transition_log e'"
      by blast
    from evaluate_state_settled [OF assms(1) e] assms(3) a c l show ?thesis by simp
  qed
qed

lemma rule_step_settles:
  assumes "rule_steady r d" and "cache_keyed eng"
    and "rule_start_ok r d (current_alert_state eng r)"
  shows "(current_alert_state (evaluate_rule tk r d eng) r = current_alert_state eng r
          \<and> transition_log (evaluate_rule tk r d eng) = transition_log eng)
       \<or> (rule_settled r d (current_alert_state (evaluate_rule tk r d eng) r)
          \<and> length (transition_log (evaluate_rule tk r d eng))
              = Suc (length (transition_log eng)))"
proof -
  have a: "as_state (get_state eng (ar_id r) (ar_symbol r) (now tk)) = current_alert_state eng r"
    unfolding current_alert_state_def by (rule get_state_as_state)
  from evaluate_rule_step [OF assms(2), of tk r d] show ?thesis
  proof
    assume "evaluate_rule tk r d eng = eng"
    then show ?thesis by simp
  next
    assume "\<exists>s' e'. evaluate_state tk r d (get_state eng (ar_id r) (ar_symbol r) (now tk)) eng
                 = Some (s', e')
              \<and> current_alert_state (evaluate_rule tk r d eng) r = as_state s'
              \<and> transition_log (evaluate_rule tk r d eng) = transition_log e'"
    then obtain s' e' where
      e: "evaluate_state tk r d (get_state eng (ar_id r) (ar_symbol r) (now tk)) eng = Some (s', e')"
      and c: "current_alert_state (evaluate_rule tk r d eng) r = as_state s'"
      and l: "transition_log (evaluate_rule tk r d eng) = transition_log e'"
      by blast
    from evaluate_state_settles [OF assms(1) e] assms(3) a c l show ?thesis by simp
  qed
qed

lemma settled_run:
  "rule_steady r d \<Longrightarrow> cache_keyed eng \<Longrightarrow> rule_settled r d (current_alert_state eng r) \<Longrightarrow>
   transition_log (run_rule r d tks eng) = transition_log eng"
proof (induction tks arbitrary: eng)
  case Nil
  then show ?case by simp
next
  case (Cons tk tks)
  let ?e = "evaluate_rule tk r d eng"
  from rule_step_settled [OF Cons.prems, of tk]
  have eq: "current_alert_state ?e r = current_alert_state eng r"
    and lg: "transition_log ?e = transition_log eng" by simp_all
  have "transition_log (run_rule r d tks ?e) = transition_log ?e"
    using Cons.prems eq by (intro Cons.IH evaluate_rule_keyed) simp_all
  with lg show ?case by simp
qed

lemma steady_run:
  "rule_steady r d \<Longrightarrow> cache_keyed eng \<Longrightarrow> rule_start_ok r d (current_alert_state eng r) \<Longrightarrow>
   length (transition_log (run_rule r d tks eng)) \<le> Suc (length (transition_log eng))"
proof (induction tks arbitrary: eng)
  case Nil
  then show ?case by simp
next
  case (Cons tk tks)
  let ?e = "evaluate_rule tk r d eng"
  have k: "cache_keyed ?e" by (rule evaluate_rule_keyed [OF Cons.prems(2)])
  from rule_step_settles [OF Cons.prems, of tk] show ?case
  proof
    assume h: "current_alert_state ?e r = current_alert_state eng r
          \<and> transition_log ?e = transition_log eng"
    with Cons.prems(3) have "rule_start_ok r d (current_alert_state ?e r)" by simp
    from Cons.IH [OF Cons.prems(1) k this] h show ?thesis by simp
  next
    assume h: "rule_settled r d (current_alert_state ?e r)
          \<and> length (transition_log ?e) = Suc (length (transition_log eng))"
    with settled_run [OF Cons.prems(1) k, of tks] show ?thesis by simp
  qed
qed

lemma run_rules_keyed:
  "cache_keyed eng \<Longrightarrow> cache_keyed (run_rules ticks eng)"
proof (induction ticks arbitrary: eng)
  case Nil
  then show ?case by simp
next
  case (Cons x ticks)
  obtain tk r d where x: "x = (tk, r, d)" by (cases x)
  show ?case unfolding x run_rules.simps
    by (rule Cons.IH) (rule evaluate_rule_keyed [OF Cons.prems])
qed

subsection \<open>A sector under the same snapshot\<close>

lemma watch_no_exit:
  "hysteresis_ordered th \<Longrightarrow> meets_watch_criteria th m \<Longrightarrow> \<not> should_exit_watch th m"
  by (auto simp add: hysteresis_ordered_def meets_watch_criteria_def should_exit_watch_def Let_def)

lemma transition_logic_settled:
  assumes "\<not> (meets_alert_criteria th m \<and> should_exit_alert th m)"
    and "sector_settled th m (current_state r0)"
  shows "fst (transition_logic th t m r0) = current_state r0"
  using assms
  by (cases "current_state r0") (auto simp add: sector_settled_def transition_logic_def split: if_splits)

lemma transition_logic_settles:
  assumes "hysteresis_ordered th"
    and "\<not> (meets_alert_criteria th m \<and> should_exit_alert th m)"
    and "current_state r0 = NORMAL \<or> current_state r0 = WATCH"
  shows "fst (transition_logic th t m r0) = current_state r0
       \<or> sector_settled th m (fst (transition_logic th t m r0))"
  using assms watch_no_exit [of th m]
  by (cases "current_state r0") (auto simp add: sector_settled_def transition_logic_def split: if_splits)

lemma update_state_current:
  "get_current_state (fst (update_state clk sid m sm)) sid =
     fst (transition_logic (thresholds sm) (sc_now clk) m
       (case sector_states sm sid of
               None \<Rightarrow>
                 \<lparr>sector_id = sid, current_state = NORMAL, last_transition = sc_now clk,
                  sector_cooldown_until = None, last_alert_metrics = None,
                  state_history = []\<rparr>
             | Some r \<Rightarrow> r))"
proof -
  define r0 where "r0 = (case sector_states sm sid of
               None \<Rightarrow>
                 \<lparr>sector_id = sid, current_state = NORMAL, last_transition = sc_now clk,
                  sector_cooldown_until = None, last_alert_metrics = None,
                  state_history = []\<rparr>
             | Some r \<Rightarrow> r)"
  obtain new reason r1
    where tl: "transition_logic (thresholds sm) (sc_now clk) m r0 = (new, reason, r1)"
    by (cases "transition_logic (thresholds sm) (sc_now clk) m r0") auto
  have "new = current_state r0 \<longrightarrow> current_state r1 = new"
    using transition_logic_cases [OF tl]
    by (cases "current_state r0") (use tl in \<open>auto simp add: transition_logic_def split: if_splits\<close>)
  then show ?thesis
    using tl unfolding update_state_def Let_def r0_def [symmetric]
    by (auto simp add: get_current_state_def)
qed

lemma update_state_thresholds:
  "thresholds (fst (update_state clk sid m sm)) = thresholds sm"
  by (simp add: update_state_def Let_def split: prod.splits)


lemma get_current_state_record:
  "current_state (case sector_states sm sid of
               None \<Rightarrow>
                 \<lparr>sector_id = sid, current_state = NORMAL, last_transition = t,
                  sector_cooldown_until = None, last_alert_metrics = None,
                  state_history = []\<rparr>
             | Some r \<Rightarrow> r) = get_current_state sm sid"
  by (simp add: get_current_state_def split: option.splits)

text \<open>A call returns an event exactly when it changes the state of the sector, so the
  changes along the states after each call are the transitions of the sector.\<close>

lemma update_state_event:
  "(snd (update_state clk sid m sm) = None)
     = (get_current_state (fst (update_state clk sid m sm)) sid = get_current_state sm sid)"
proof -
  define r0 where "r0 = (case sector_states sm sid of
               None \<Rightarrow>
                 \<lparr>sector_id = sid, current_state = NORMAL, last_transition = sc_now clk,
                  sector_cooldown_until = None, last_alert_metrics = None,
                  state_history = []\<rparr>
             | Some r \<Rightarrow> r)"
  obtain new reason r1
    where tl: "transition_logic (thresholds sm) (sc_now clk) m r0 = (new, reason, r1)"
    by (cases "transition_logic (thresholds sm) (sc_now clk) m r0") auto
  have c: "current_state r0 = get_current_state sm sid"
    unfolding r0_def by (rule get_current_state_record)
  have n: "get_current_state (fst (update_state clk sid m sm)) sid = new"
    unfolding update_state_current r0_def [symmetric] tl by simp
  have "(snd (update_state clk sid m sm) = None) = (new = current_state r0)"
    using tl unfolding update_state_def Let_def r0_def [symmetric] by simp
  then show ?thesis unfolding n c .
qed

lemma sector_step_settled:
  assumes "\<not> (meets_alert_criteria (thresholds sm) m \<and> should_exit_alert (thresholds sm) m)"
    and "sector_settled (thresholds sm) m (get_current_state sm sid)"
  shows "get_current_state (fst (update_state clk sid m sm)) sid = get_current_state sm sid"
proof -
  let ?r0 = "case sector_states sm sid of
               None \<Rightarrow>
                 \<lparr>sector_id = sid, current_state = NORMAL, last_transition = sc_now clk,
                  sector_cooldown_until = None, last_alert_metrics = None,
                  state_history = []\<rparr>
             | Some r \<Rightarrow> r"
  have c: "current_state ?r0 = get_current_state sm sid"
    by (rule get_current_state_record)
  from assms(2) have "sector_settled (thresholds sm) m (current_state ?r0)"
    unfolding c .
  from transition_logic_settled [OF assms(1) this, of "sc_now clk"]
  show ?thesis unfolding update_state_current c .
qed

lemma sector_step_settles:
  assumes "hysteresis_ordered (thresholds sm)"
    and "\<not> (meets_alert_criteria (thresholds sm) m \<and> should_exit_alert (thresholds sm) m)"
    and "get_current_state sm sid = NORMAL \<or> get_current_state sm sid = WATCH"
  shows "get_current_state (fst (update_state clk sid m sm)) sid = get_current_state sm sid
       \<or> sector_settled (thresholds sm) m (get_current_state (fst (update_state clk sid m sm)) sid)"
proof -
  let ?r0 = "case sector_states sm sid of
               None \<Rightarrow>
                 \<lparr>sector_id = sid, current_state = NORMAL, last_transition = sc_now clk,
                  sector_cooldown_until = None, last_alert_metrics = None,
                  state_history = []\<rparr>
             | Some r \<Rightarrow> r"
  have c: "current_state ?r0 = get_current_state sm sid"
    by (rule get_current_state_record)
  from assms(3) have "current_state ?r0 = NORMAL \<or> current_state ?r0 = WATCH"
    unfolding c .
  from transition_logic_settles [OF assms(1) assms(2) this, of "sc_now clk"]
  show ?thesis unfolding update_state_current c .
qed

lemma settled_sector_trace:
  "\<not> (meets_alert_criteria (thresholds sm) m \<and> should_exit_alert (thresholds sm) m) \<Longrightarrow>
   sector_settled (thresholds sm) m (get_current_state sm sid) \<Longrightarrow>
   count_changes (get_current_state sm sid) (sector_trace sid m clks sm) = 0"
proof (induction clks arbitrary: sm)
  case Nil
  then show ?case by simp
next
  case (Cons clk clks)
  let ?sm = "fst (update_state clk sid m sm)"
  have eq: "get_current_state ?sm sid = get_current_state sm sid"
    by (rule sector_step_settled [OF Cons.prems])
  with Cons.IH [of ?sm] Cons.prems
  show ?case by (simp add: Let_def update_state_thresholds)
qed

lemma sector_trace_once:
  "hysteresis_ordered (thresholds sm) \<Longrightarrow>
   \<not> (meets_alert_criteria (thresholds sm) m \<and> should_exit_alert (thresholds sm) m) \<Longrightarrow>
   get_current_state sm sid = NORMAL \<or> get_current_state sm sid = WATCH \<Longrightarrow>
   count_changes (get_current_state sm sid) (sector_trace sid m clks sm) \<le> 1"
proof (induction clks arbitrary: sm)
  case Nil
  then show ?case by simp
next
  case (Cons clk clks)
  let ?sm = "fst (update_state clk sid m sm)"
  show ?case
  proof (cases "get_current_state ?sm sid = get_current_state sm sid")
    case True
    with Cons.IH [of ?sm] Cons.prems show ?thesis
      by (simp add: Let_def update_state_thresholds)
  next
    case False
    with sector_step_settles [OF Cons.prems, of clk]
    have "sector_settled (thresholds ?sm) m (get_current_state ?sm sid)"
      by (simp add: update_state_thresholds)
    from settled_sector_trace [of ?sm m sid clks] this Cons.prems(2) False
    show ?thesis by (simp add: Let_def update_state_thresholds)
  qed
qed

subsection \<open>At most one transition\<close>

text \<open>
  Claim C4, as amended. Feeding identical market data to a rule at any clock readings
  makes at most one state transition, every call of \<open>transition\<close> counted, provided the
  rule is steady (condition DIP_GT or RSI_LT, hysteresis not negative, no debounce
  window), its state sits in the cache under its own key (as in every engine reached
  from the empty one), it is not in TRIGGERED with the reset predicate true of that
  data, and it is not in COOLDOWN with the condition met by that data. Feeding identical
  snapshots to the sector machine at any clock readings changes a sector's state at most
  once, a call changing it at most once, provided the thresholds are ordered (the exit
  thresholds of WATCH not above its entry thresholds, as in the defaults), the snapshot
  does not meet the ALERT entry criteria and the ALERT exit criteria at once, and the
  sector is in NORMAL or WATCH.
\<close>

theorem identical_inputs_one_transition:
  "(rule_steady r d \<and> cache_keyed eng
      \<and> (current_alert_state eng r = TRIGGERED
            \<longrightarrow> \<not> should_reset r (snd (check_condition r d)))
      \<and> (current_alert_state eng r = COOLDOWN \<longrightarrow> \<not> fst (check_condition r d))
      \<longrightarrow> length (transitions_made r d tks eng) \<le> 1)
   \<and> (hysteresis_ordered (thresholds sm)
      \<and> \<not> (meets_alert_criteria (thresholds sm) m \<and> should_exit_alert (thresholds sm) m)
      \<and> (get_current_state sm sid = NORMAL \<or> get_current_state sm sid = WATCH)
      \<longrightarrow> count_changes (get_current_state sm sid) (sector_trace sid m clks sm) \<le> 1)"
proof -
  have "length (transitions_made r d tks eng) \<le> 1"
    if "rule_steady r d" "cache_keyed eng" "rule_start_ok r d (current_alert_state eng r)"
    using steady_run [OF that, of tks] by (simp add: transitions_made_def)
  then show ?thesis
    using sector_trace_once [of sm m sid clks] by (auto simp add: rule_start_ok_def)
qed

theorem identical_inputs_one_transition_witness:
  "length (transitions_made example_rule [''dip_percent'' \<mapsto> 6]
        [example_tick, example_tick\<lparr>now := 11\<rparr>] (AlertEngine_init None)) \<le> 1
   \<and> count_changes (get_current_state (SectorStateMachine_init None) ''it'')
     (sector_trace ''it'' [''dip_pct'' \<mapsto> 9, ''rsi40_breadth'' \<mapsto> 0.5]
        [example_clock, example_clock\<lparr>sc_now := 900\<rparr>]
        (SectorStateMachine_init None)) \<le> 1"
proof -
  have r: "rule_steady example_rule [''dip_percent'' \<mapsto> 6]
      \<and> cache_keyed (AlertEngine_init None)
      \<and> (current_alert_state (AlertEngine_init None) example_rule = TRIGGERED
            \<longrightarrow> \<not> should_reset example_rule
                 (snd (check_condition example_rule [''dip_percent'' \<mapsto> 6])))
      \<and> (current_alert_state (AlertEngine_init None) example_rule = COOLDOWN
            \<longrightarrow> \<not> fst (check_condition example_rule [''dip_percent'' \<mapsto> 6]))"
    by (simp add: rule_steady_def cache_keyed_def example_rule_def current_alert_state_def
        get_state_def AlertEngine_init_def)
  have s: "hysteresis_ordered (thresholds (SectorStateMachine_init None))
      \<and> \<not> (meets_alert_criteria (thresholds (SectorStateMachine_init None))
               [''dip_pct'' \<mapsto> 9, ''rsi40_breadth'' \<mapsto> 0.5]
            \<and> should_exit_alert (thresholds (SectorStateMachine_init None))
               [''dip_pct'' \<mapsto> 9, ''rsi40_breadth'' \<mapsto> 0.5])
      \<and> (get_current_state (SectorStateMachine_init None) ''it'' = NORMAL
           \<or> get_current_state (SectorStateMachine_init None) ''it'' = WATCH)"
    by (simp add: hysteresis_ordered_def SectorStateMachine_init_def
        StateThresholds_default_def should_exit_alert_def dict_get_def
        get_current_state_def)
  from identical_inputs_one_transition
    [of example_rule "[''dip_percent'' \<mapsto> 6]" "AlertEngine_init None"
        "[example_tick, example_tick\<lparr>now := 11\<rparr>]"
        "SectorStateMachine_init None" "[''dip_pct'' \<mapsto> 9, ''rsi40_breadth'' \<mapsto> 0.5]"
        "''it''" "[example_clock, example_clock\<lparr>sc_now := 900\<rparr>]"] r s
  show ?thesis by blast
qed

text \<open>
  Claim C4 as the specification states it fails for both machines. A DIP_GT rule with
  threshold 5 and a debounce of 10 seconds that sees a dip of 6 twice, 11 seconds apart,
  goes from IDLE to ARMED and from ARMED to TRIGGERED: two transitions. A rule without
  debounce that has fired at a dip of 6 and reset at a dip of 2 is in COOLDOWN until
  3610; one evaluation at 4000 with a dip of 6 takes it to IDLE and on to TRIGGERED: two
  transitions on one input. A new sector that sees twice a snapshot with a dip of 9, an
  RSI<40 breadth of 0.1 and a lower-band breadth of 0.6 goes from NORMAL to ALERT (the
  lower-band alternative of the entry criteria) and from ALERT to COOLDOWN (the breadth
  is below the exit threshold 0.43): two transitions.
\<close>

theorem identical_inputs_counterexample:
  "transitions_made (example_rule\<lparr>debounce_seconds := 10\<rparr>) [''dip_percent'' \<mapsto> 6]
        [example_tick, example_tick\<lparr>now := 11\<rparr>] (AlertEngine_init None)
     = [(''r1'', ARMED), (''r1'', TRIGGERED)]
   \<and> transitions_made example_rule [''dip_percent'' \<mapsto> 6]
        [example_tick\<lparr>now := 4000\<rparr>]
        (run_rules
           [(example_tick, example_rule, [''dip_percent'' \<mapsto> 6]),
            (example_tick\<lparr>now := 10\<rparr>, example_rule, [''dip_percent'' \<mapsto> 2])]
           (AlertEngine_init None))
     = [(''r1'', IDLE), (''r1'', TRIGGERED)]
   \<and> count_changes (get_current_state (SectorStateMachine_init None) ''it'')
     (sector_trace ''it''
        [''dip_pct'' \<mapsto> 9, ''rsi40_breadth'' \<mapsto> 0.1, ''lowerband_breadth'' \<mapsto> 0.6]
        [example_clock, example_clock\<lparr>sc_now := 900\<rparr>]
        (SectorStateMachine_init None)) = 2"
proof (intro conjI)
  show "transitions_made (example_rule\<lparr>debounce_seconds := 10\<rparr>) [''dip_percent'' \<mapsto> 6]
        [example_tick, example_tick\<lparr>now := 11\<rparr>] (AlertEngine_init None)
     = [(''r1'', ARMED), (''r1'', TRIGGERED)]"
    by (simp add: transitions_made_def get_state_def evaluate_rule_def evaluate_state_def
        check_condition_def dict_get_def transition_def save_state_def AlertEngine_init_def
        NoiseControl_init_def trigger_alert_def is_quiet_hours_def check_budget_def
        consume_budget_def time_of_day_def example_rule_def example_tick_def state_key_def
        Let_def)
  show "transitions_made example_rule [''dip_percent'' \<mapsto> 6]
        [example_tick\<lparr>now := 4000\<rparr>]
        (run_rules
           [(example_tick, example_rule, [''dip_percent'' \<mapsto> 6]),
            (example_tick\<lparr>now := 10\<rparr>, example_rule, [''dip_percent'' \<mapsto> 2])]
           (AlertEngine_init None))
     = [(''r1'', IDLE), (''r1'', TRIGGERED)]"
    by (simp add: transitions_made_def get_state_def evaluate_rule_def evaluate_state_def
        check_condition_def should_reset_def dict_get_def transition_def save_state_def
        AlertEngine_init_def NoiseControl_init_def trigger_alert_def is_quiet_hours_def
        check_budget_def consume_budget_def time_of_day_def example_rule_def
        example_tick_def state_key_def Let_def)
  show "count_changes (get_current_state (SectorStateMachine_init None) ''it'')
     (sector_trace ''it''
        [''dip_pct'' \<mapsto> 9, ''rsi40_breadth'' \<mapsto> 0.1, ''lowerband_breadth'' \<mapsto> 0.6]
        [example_clock, example_clock\<lparr>sc_now := 900\<rparr>]
        (SectorStateMachine_init None)) = 2"
    by (simp add: get_current_state_def update_state_def transition_logic_def
        SectorStateMachine_init_def StateThresholds_default_def meets_alert_criteria_def
        should_exit_alert_def dict_get_def example_clock_def Let_def)
qed


section \<open>Properties of the RSI\<close>

subsection \<open>What the batch RSI returns\<close>

lemma ewm_from_nonneg:
  "0 \<le> \<alpha> \<Longrightarrow> \<alpha> \<le> 1 \<Longrightarrow> 0 \<le> prev \<Longrightarrow> (\<And>x. x \<in> set xs \<Longrightarrow> 0 \<le> x) \<Longrightarrow>
   y \<in> set (ewm_from \<alpha> prev xs) \<Longrightarrow> 0 \<le> y"
proof (induction xs arbitrary: prev)
  case Nil
  then show ?case by simp
next
  case (Cons x xs)
  have x: "0 \<le> x" using Cons.prems(4) by simp
  have n: "0 \<le> (1 - \<alpha>) * prev + \<alpha> * x"
    using Cons.prems(1,2,3) x by simp
  from Cons.prems(5)
  have "y = (1 - \<alpha>) * prev + \<alpha> * x \<or> y \<in> set (ewm_from \<alpha> ((1 - \<alpha>) * prev + \<alpha> * x) xs)"
    by (simp add: Let_def)
  then show ?case
  proof
    assume "y = (1 - \<alpha>) * prev + \<alpha> * x"
    with n show ?thesis by simp
  next
    assume "y \<in> set (ewm_from \<alpha> ((1 - \<alpha>) * prev + \<alpha> * x) xs)"
    with Cons.IH [OF Cons.prems(1,2) n] Cons.prems(4) show ?thesis by simp
  qed
qed

lemma ewm_alpha_nonneg:
  assumes "0 \<le> \<alpha>" "\<alpha> \<le> 1" "\<And>x. x \<in> set xs \<Longrightarrow> 0 \<le> x" "y \<in> set (ewm_alpha \<alpha> xs)"
  shows "0 \<le> y"
proof (cases xs)
  case Nil
  with assms(4) show ?thesis by (simp add: ewm_alpha_def)
next
  case (Cons x rest)
  with assms(4) have "y = x \<or> y \<in> set (ewm_from \<alpha> x rest)" by (simp add: ewm_alpha_def)
  then show ?thesis
  proof
    assume "y = x" with assms(3) Cons show ?thesis by simp
  next
    assume "y \<in> set (ewm_from \<alpha> x rest)"
    with ewm_from_nonneg [OF assms(1,2), of x rest y] assms(3) Cons show ?thesis by simp
  qed
qed


lemma ewm_alpha_empty: "(ewm_alpha \<alpha> xs = []) = (xs = [])"
  by (cases xs) (simp_all add: ewm_alpha_def)

lemma np_diff_empty: "(np_diff xs = []) = (length xs < 2)"
  by (cases xs; cases "tl xs") (simp_all add: np_diff_def)

lemma calculate_rsi_short:
  "int (length closes) < period + 1 \<Longrightarrow> calculate_rsi closes period = Inr None"
  by (simp add: calculate_rsi_def)

lemma calculate_rsi_value:
  assumes "1 \<le> period" and "period + 1 \<le> int (length closes)"
  shows "calculate_rsi closes period =
     Inr (Some
       (if last (ewm_alpha (2 / (of_int period + 1))
                  (map (\<lambda>d. if d < 0 then - d else 0) (np_diff closes))) = 0
        then 100
        else 100 - 100 /
          (1 + last (ewm_alpha (2 / (of_int period + 1))
                       (map (\<lambda>d. if d > 0 then d else 0) (np_diff closes)))
             / last (ewm_alpha (2 / (of_int period + 1))
                       (map (\<lambda>d. if d < 0 then - d else 0) (np_diff closes))))))"
proof -
  have "\<not> length closes < 2" using assms by simp
  then have ne: "np_diff closes \<noteq> []" by (simp add: np_diff_empty)
  have p: "\<not> period < 1" "\<not> int (length closes) < period + 1" using assms by simp_all
  show ?thesis
    unfolding calculate_rsi_def Let_def ewm_span_mean_def iloc_last_def
    using p ne by (simp add: ewm_alpha_empty)
qed

lemma calculate_rsi_range:
  assumes "1 \<le> period" and "period + 1 \<le> int (length closes)"
  shows "\<exists>v. calculate_rsi closes period = Inr (Some v) \<and> 0 \<le> v \<and> v \<le> 100"
proof -
  let ?a = "2 / (of_int period + 1) :: real"
  let ?gs = "ewm_alpha ?a (map (\<lambda>d. if d > 0 then d else 0) (np_diff closes))"
  let ?ls = "ewm_alpha ?a (map (\<lambda>d. if d < 0 then - d else 0) (np_diff closes))"
  have a: "0 \<le> ?a" "?a \<le> 1" using assms(1) by simp_all
  have "\<not> length closes < 2" using assms by simp
  then have ne: "?gs \<noteq> []" "?ls \<noteq> []" by (simp_all add: ewm_alpha_empty np_diff_empty)
  have g: "0 \<le> last ?gs"
    by (rule ewm_alpha_nonneg [OF a _ last_in_set [OF ne(1)]]) auto
  have l: "0 \<le> last ?ls"
    by (rule ewm_alpha_nonneg [OF a _ last_in_set [OF ne(2)]]) auto
  have r: "0 \<le> last ?gs / last ?ls" using g l by simp
  then have "0 < 1 + last ?gs / last ?ls" by simp
  then have "0 \<le> 100 / (1 + last ?gs / last ?ls)" "100 / (1 + last ?gs / last ?ls) \<le> 100"
    using r by (simp_all add: divide_le_eq)
  then have "0 \<le> (if last ?ls = 0 then 100 else 100 - 100 / (1 + last ?gs / last ?ls))
      \<and> (if last ?ls = 0 then 100 else 100 - 100 / (1 + last ?gs / last ?ls)) \<le> (100::real)"
    by simp
  with calculate_rsi_value [OF assms] show ?thesis by blast
qed

subsection \<open>The smoothing factor\<close>

text \<open>
  Claim C6. The batch RSI smooths with \<^verbatim>\<open>ewm(span=period)\<close>, whose factor is
  \<open>2 / (period + 1)\<close>, not \<open>1 / period\<close>: for the closes 10, 12, 11 and period 2 it
  returns 50, where the averages with factor 1/2 give 200/3. The incremental variant,
  once its averages are set (2 and 0 after the closes 10, 12), smooths with
  \<open>1 / period\<close> and returns 200/3 for the next close 11, so the two do not agree.
\<close>

theorem calculate_rsi_smoothing_factor:
  "calculate_rsi [10, 12, 11] 2 = Inr (Some 50)
   \<and> spec_rsi [10, 12, 11] 2 = Some (200 / 3)
   \<and> fst (update_incremental_rsi
          \<lparr>ii_closes = [10, 12], rsi_avg_gain = Some 2, rsi_avg_loss = Some 0\<rparr> 11 2)
        = Inr (Some (200 / 3))"
proof (intro conjI)
  show "calculate_rsi [10, 12, 11] 2 = Inr (Some 50)"
    by (simp add: calculate_rsi_def np_diff_def ewm_span_mean_def ewm_alpha_def
        iloc_last_def Let_def)
  show "spec_rsi [10, 12, 11] 2 = Some (200 / 3)"
    by (simp add: spec_rsi_def np_diff_def ewm_alpha_def Let_def)
  show "fst (update_incremental_rsi
          \<lparr>ii_closes = [10, 12], rsi_avg_gain = Some 2, rsi_avg_loss = Some 0\<rparr> 11 2)
        = Inr (Some (200 / 3))"
    by (simp add: update_incremental_rsi_def Let_def)
qed



section \<open>Properties of the candidate ranker\<close>

subsection \<open>Scoring, sorting and numbering\<close>
















subsection \<open>The ranking\<close>




end
